theory Spec2Isabelle
  imports Main "HOL-Library.Word"
begin

section \<open>Timezone utilities for date display (timezoneUtils.ts)\<close>

text \<open>
  The two source files define \<open>convertUTCToTimezone\<close> (zone-parameterised) and
  \<open>convertUTCToIST\<close> (IST only). Both are pure string functions built on the JavaScript
  \<open>Date\<close> object, \<open>String\<close>, \<open>includes\<close> and \<open>padStart\<close>. The embedding has
  two layers: the part of the ECMAScript runtime that the functions call (strings,
  Numbers, time values and the calendar, the date-time string format, the Date object),
  and the two functions themselves, translated statement by statement.
\<close>

subsection \<open>JavaScript strings\<close>

text \<open>
  A JavaScript string is a sequence of 16-bit code units. The sentinel \<open>'\<infinity>'\<close> is the
  single code unit U+221E, \<open>'-\<infinity>'\<close> is U+002D followed by U+221E. \<open>str\<close> embeds an
  ASCII literal.
\<close>

type_synonym jschar = "16 word"
type_synonym jsstring = "jschar list"

definition chr :: "char \<Rightarrow> jschar" where
  "chr c = of_nat (of_char c)"

definition str :: "string \<Rightarrow> jsstring" where
  "str s = map chr s"

definition INFTY :: jsstring where
  "INFTY = [0x221E]"

definition MINUS_INFTY :: jsstring where
  "MINUS_INFTY = [0x2D, 0x221E]"

text \<open>
  \<open>s.includes(sub)\<close> (named \<open>includes_str\<close>, as \<open>includes\<close> is reserved
  in Isabelle): true iff \<open>sub\<close> occurs in \<open>s\<close> as a contiguous run of code
  units.
\<close>

fun includes_str :: "jsstring \<Rightarrow> jsstring \<Rightarrow> bool" where
  "includes_str [] sub = (sub = [])"
| "includes_str (c # cs) sub = (take (length sub) (c # cs) = sub \<or> includes_str cs sub)"

text \<open>
  \<open>s.padStart(2, '0')\<close>: a string of length at least 2 is returned as it is, a shorter
  one is filled on the left with \<open>'0'\<close>.
\<close>

definition padStart2 :: "jsstring \<Rightarrow> jsstring" where
  "padStart2 s = (if 2 \<le> length s then s else replicate (2 - length s) (chr CHR ''0'') @ s)"

subsection \<open>Numbers\<close>

text \<open>
  Every Number the two functions compute is either \<open>NaN\<close> or an integer of absolute
  value below \<open>2 ^ 53\<close> (time values are at most \<open>8.64e15\<close> in absolute value, and the
  only arithmetic is adding \<open>19800000\<close> or \<open>1\<close>), so double arithmetic is exact on them:
  a Number is an \<open>int option\<close>, \<open>None\<close> being \<open>NaN\<close>.
\<close>

type_synonym number = "int option"

definition num_add :: "number \<Rightarrow> number \<Rightarrow> number" where
  "num_add a b = (case a of None \<Rightarrow> None | Some x \<Rightarrow> (case b of None \<Rightarrow> None | Some y \<Rightarrow> Some (x + y)))"

text \<open>
  The code unit of a decimal digit (\<open>'0'\<close> is 48), and the decimal digits of a natural
  number, most significant first.
\<close>

definition digit_char :: "nat \<Rightarrow> jschar" where
  "digit_char k = of_nat (48 + k)"

fun nat_digits :: "nat \<Rightarrow> jsstring" where
  "nat_digits n = (if n < 10 then [digit_char n] else nat_digits (n div 10) @ [digit_char (n mod 10)])"

declare nat_digits.simps [simp del]

text \<open>\<open>String(x)\<close> and template interpolation of a Number.\<close>

definition String :: "number \<Rightarrow> jsstring" where
  "String x = (case x of None \<Rightarrow> str ''NaN''
               | Some n \<Rightarrow> (if n < 0 then chr CHR ''-'' # nat_digits (nat (- n)) else nat_digits (nat n)))"

subsection \<open>ECMAScript time values and calendar (ECMA-262, 21.4.1)\<close>

definition msPerDay :: int where
  "msPerDay = 86400000"

definition Day :: "int \<Rightarrow> int" where
  "Day t = t div msPerDay"

definition TimeWithinDay :: "int \<Rightarrow> int" where
  "TimeWithinDay t = t mod msPerDay"

definition leap_year :: "int \<Rightarrow> bool" where
  "leap_year y = (y mod 4 = 0 \<and> (y mod 100 \<noteq> 0 \<or> y mod 400 = 0))"

definition DaysInYear :: "int \<Rightarrow> int" where
  "DaysInYear y = (if leap_year y then 366 else 365)"

definition DayFromYear :: "int \<Rightarrow> int" where
  "DayFromYear y = 365 * (y - 1970) + (y - 1969) div 4 - (y - 1901) div 100 + (y - 1601) div 400"

definition TimeFromYear :: "int \<Rightarrow> int" where
  "TimeFromYear y = msPerDay * DayFromYear y"

text \<open>
  ECMA-262 defines \<open>YearFromTime t\<close> as the largest \<open>y\<close> with \<open>TimeFromYear y \<le> t\<close>.
  The executable form estimates the year from the mean length of a Gregorian year and
  corrects the estimate by at most one; \<open>YearFromTime_bounds\<close> below proves that it is the
  year ECMA-262 defines.
\<close>

definition YearFromTime :: "int \<Rightarrow> int" where
  "YearFromTime t =
     (let d = Day t; y = 1970 + (400 * d) div 146097
      in if DayFromYear (y + 1) \<le> d then y + 1
         else if DayFromYear y \<le> d then y
         else y - 1)"

definition InLeapYear :: "int \<Rightarrow> int" where
  "InLeapYear t = (if leap_year (YearFromTime t) then 1 else 0)"

definition DayWithinYear :: "int \<Rightarrow> int" where
  "DayWithinYear t = Day t - DayFromYear (YearFromTime t)"

text \<open>First day (within the year) of month \<open>m\<close> (0 to 11, and 12 for the year's end).\<close>

definition month_start :: "int \<Rightarrow> int \<Rightarrow> int" where
  "month_start l m =
     (if m \<le> 0 then 0 else if m = 1 then 31
      else l + (if m = 2 then 59 else if m = 3 then 90 else if m = 4 then 120
                else if m = 5 then 151 else if m = 6 then 181 else if m = 7 then 212
                else if m = 8 then 243 else if m = 9 then 273 else if m = 10 then 304
                else if m = 11 then 334 else 365))"

definition MonthFromTime :: "int \<Rightarrow> int" where
  "MonthFromTime t =
     (let d = DayWithinYear t; l = InLeapYear t
      in if d < 31 then 0
         else if d < 59 + l then 1
         else if d < 90 + l then 2
         else if d < 120 + l then 3
         else if d < 151 + l then 4
         else if d < 181 + l then 5
         else if d < 212 + l then 6
         else if d < 243 + l then 7
         else if d < 273 + l then 8
         else if d < 304 + l then 9
         else if d < 334 + l then 10
         else 11)"

definition DateFromTime :: "int \<Rightarrow> int" where
  "DateFromTime t = DayWithinYear t - month_start (InLeapYear t) (MonthFromTime t) + 1"

definition HourFromTime :: "int \<Rightarrow> int" where
  "HourFromTime t = (t div 3600000) mod 24"

definition MinFromTime :: "int \<Rightarrow> int" where
  "MinFromTime t = (t div 60000) mod 60"

definition SecFromTime :: "int \<Rightarrow> int" where
  "SecFromTime t = (t div 1000) mod 60"

text \<open>
  \<open>MakeDay\<close> for a month in 0 to 11 (the only use here), \<open>MakeTime\<close> and \<open>MakeDate\<close> on
  integers, and \<open>TimeClip\<close>, which turns a time value outside \<open>\<plusminus>8.64e15\<close> into \<open>NaN\<close>.
\<close>

definition MakeDay :: "int \<Rightarrow> int \<Rightarrow> int \<Rightarrow> int" where
  "MakeDay y m dt = DayFromYear y + month_start (if leap_year y then 1 else 0) m + dt - 1"

definition MakeTime :: "int \<Rightarrow> int \<Rightarrow> int \<Rightarrow> int \<Rightarrow> int" where
  "MakeTime h m s ms = h * 3600000 + m * 60000 + s * 1000 + ms"

definition MakeDate :: "int \<Rightarrow> int \<Rightarrow> int" where
  "MakeDate day time = day * msPerDay + time"

definition TimeClip :: "number \<Rightarrow> number" where
  "TimeClip x = (case x of None \<Rightarrow> None
                 | Some t \<Rightarrow> (if 8640000000000000 < \<bar>t\<bar> then None else Some t))"

definition DaysInMonth :: "int \<Rightarrow> int \<Rightarrow> int" where
  "DaysInMonth y m =
     (let l = (if leap_year y then 1 else 0) in month_start l m - month_start l (m - 1))"

subsection \<open>The date-time string format (ECMA-262, 21.4.1.32)\<close>

text \<open>
  \<open>Date.parse\<close> first reads its argument in the format
  \<open>YYYY-MM-DDTHH:mm:ss.sssZ\<close>: a four-digit year or a signed six-digit expanded year;
  optional \<open>-MM\<close> and \<open>-DD\<close>; optionally \<open>T\<close>, then \<open>HH:mm\<close>, \<open>HH:mm:ss\<close> or
  \<open>HH:mm:ss.sss\<close>, then nothing, \<open>Z\<close> or \<open>\<plusminus>HH:mm\<close>. A date-only form is UTC; a
  date-time form with no offset is local time. A string that is not in the format goes
  to the engine's own heuristics. Engines differ on a day number that is at most 31 but
  beyond the length of its month (\<open>2024-02-30\<close>); such a string is counted here as
  not in the format, which leaves it to the engine as well.
\<close>

definition is_digit :: "jschar \<Rightarrow> bool" where
  "is_digit c = (0x30 \<le> c \<and> c \<le> 0x39)"

definition digits_val :: "jsstring \<Rightarrow> nat" where
  "digits_val s = foldl (\<lambda>a c. 10 * a + (unat c - 48)) 0 s"

definition take_digits :: "nat \<Rightarrow> jsstring \<Rightarrow> (nat \<times> jsstring) option" where
  "take_digits n s =
     (if n \<le> length s \<and> list_all is_digit (take n s) then Some (digits_val (take n s), drop n s)
      else None)"

definition expect :: "char \<Rightarrow> jsstring \<Rightarrow> jsstring option" where
  "expect c s = (case s of [] \<Rightarrow> None | x # r \<Rightarrow> if x = chr c then Some r else None)"

definition parse_year :: "jsstring \<Rightarrow> (int \<times> jsstring) option" where
  "parse_year s =
     (case s of [] \<Rightarrow> None
      | c # r \<Rightarrow>
          if c = chr CHR ''+'' \<or> c = chr CHR ''-'' then
            (case take_digits 6 r of None \<Rightarrow> None
             | Some (y, r') \<Rightarrow>
                 if c = chr CHR ''-'' then (if y = 0 then None else Some (- int y, r'))
                 else Some (int y, r'))
          else (case take_digits 4 s of None \<Rightarrow> None | Some (y, r') \<Rightarrow> Some (int y, r')))"

definition parse_date :: "jsstring \<Rightarrow> ((int \<times> int \<times> int) \<times> jsstring) option" where
  "parse_date s =
     (case parse_year s of None \<Rightarrow> None
      | Some (y, r) \<Rightarrow>
          (case expect CHR ''-'' r of None \<Rightarrow> Some ((y, 1, 1), r)
           | Some r1 \<Rightarrow>
               (case take_digits 2 r1 of None \<Rightarrow> None
                | Some (m, r2) \<Rightarrow>
                    (case expect CHR ''-'' r2 of None \<Rightarrow> Some ((y, int m, 1), r2)
                     | Some r3 \<Rightarrow>
                         (case take_digits 2 r3 of None \<Rightarrow> None
                          | Some (d, r4) \<Rightarrow> Some ((y, int m, int d), r4))))))"

definition parse_time :: "jsstring \<Rightarrow> ((int \<times> int \<times> int \<times> int) \<times> jsstring) option" where
  "parse_time s =
     (case take_digits 2 s of None \<Rightarrow> None
      | Some (h, r) \<Rightarrow>
          (case expect CHR '':'' r of None \<Rightarrow> None
           | Some r1 \<Rightarrow>
               (case take_digits 2 r1 of None \<Rightarrow> None
                | Some (mi, r2) \<Rightarrow>
                    (case expect CHR '':'' r2 of None \<Rightarrow> Some ((int h, int mi, 0, 0), r2)
                     | Some r3 \<Rightarrow>
                         (case take_digits 2 r3 of None \<Rightarrow> None
                          | Some (sec, r4) \<Rightarrow>
                              (case expect CHR ''.'' r4 of
                                 None \<Rightarrow> Some ((int h, int mi, int sec, 0), r4)
                               | Some r5 \<Rightarrow>
                                   (case take_digits 3 r5 of None \<Rightarrow> None
                                    | Some (ms, r6) \<Rightarrow>
                                        Some ((int h, int mi, int sec, int ms), r6))))))))"

text \<open>How a string in the format fixes its zone.\<close>

datatype zone_designator = DateOnly | LocalTime | UTCOffset int

definition parse_offset :: "jsstring \<Rightarrow> zone_designator option" where
  "parse_offset s =
     (case s of [] \<Rightarrow> Some LocalTime
      | c # r \<Rightarrow>
          if c = chr CHR ''Z'' then (if r = [] then Some (UTCOffset 0) else None)
          else if c = chr CHR ''+'' \<or> c = chr CHR ''-'' then
            (case take_digits 2 r of None \<Rightarrow> None
             | Some (oh, r1) \<Rightarrow>
                 (case expect CHR '':'' r1 of None \<Rightarrow> None
                  | Some r2 \<Rightarrow>
                      (case take_digits 2 r2 of None \<Rightarrow> None
                       | Some (om, r3) \<Rightarrow>
                           if r3 = [] \<and> oh \<le> 23 \<and> om \<le> 59 then
                             Some (UTCOffset ((if c = chr CHR ''-'' then - 1 else 1)
                                              * (int oh * 3600000 + int om * 60000)))
                           else None)))
          else None)"

definition valid_date :: "int \<Rightarrow> int \<Rightarrow> int \<Rightarrow> bool" where
  "valid_date y m d = (1 \<le> m \<and> m \<le> 12 \<and> 1 \<le> d \<and> d \<le> DaysInMonth y m)"

definition valid_time :: "int \<Rightarrow> int \<Rightarrow> int \<Rightarrow> int \<Rightarrow> bool" where
  "valid_time h mi sec ms =
     (mi \<le> 59 \<and> sec \<le> 59 \<and> (h \<le> 23 \<or> (h = 24 \<and> mi = 0 \<and> sec = 0 \<and> ms = 0)))"

text \<open>
  \<open>iso_parse s\<close> is \<open>None\<close> when \<open>s\<close> is not in the format, and otherwise the time value
  of the fields read as if they were UTC, with the zone designator.
\<close>

definition iso_parse :: "jsstring \<Rightarrow> (int \<times> zone_designator) option" where
  "iso_parse s =
     (case parse_date s of None \<Rightarrow> None
      | Some ((y, m, d), r) \<Rightarrow>
          if \<not> valid_date y m d then None
          else if r = [] then Some (MakeDate (MakeDay y (m - 1) d) 0, DateOnly)
          else
            (case expect CHR ''T'' r of None \<Rightarrow> None
             | Some r1 \<Rightarrow>
                 (case parse_time r1 of None \<Rightarrow> None
                  | Some ((h, mi, sec, ms), r2) \<Rightarrow>
                      if \<not> valid_time h mi sec ms then None
                      else
                        (case parse_offset r2 of None \<Rightarrow> None
                         | Some z \<Rightarrow>
                             Some (MakeDate (MakeDay y (m - 1) d) (MakeTime h mi sec ms), z)))))"

subsection \<open>The host and the Date object\<close>

text \<open>
  Two things \<open>Date.parse\<close> does are not fixed by the language: the local time zone of
  the host (\<open>LocalTZA t\<close> is the offset in milliseconds that the host applies at local
  time \<open>t\<close>), and what the engine makes of a string that is not in the date-time string
  format (\<open>fallback_parse\<close>, which may accept it with any time value or answer \<open>NaN\<close>;
  the Date constructor truncates the answer to an integer, so an integer is what the
  field gives). Both are fields of the host, so that every theorem below holds for every engine and
  every local time zone unless it names a host.
\<close>

record host =
  LocalTZA :: "int \<Rightarrow> int"
  fallback_parse :: "jsstring \<Rightarrow> number"

definition Date_parse :: "host \<Rightarrow> jsstring \<Rightarrow> number" where
  "Date_parse h s =
     (case iso_parse s of None \<Rightarrow> fallback_parse h s
      | Some (t, z) \<Rightarrow>
          (case z of DateOnly \<Rightarrow> Some t
           | LocalTime \<Rightarrow> Some (t - LocalTZA h t)
           | UTCOffset off \<Rightarrow> Some (t - off)))"

text \<open>A Date object holds one time value, \<open>NaN\<close> for an Invalid Date.\<close>

datatype Date = Date (DateValue: number)

text \<open>\<open>new Date(string)\<close> and \<open>new Date(number)\<close>: neither throws.\<close>

definition Date_of_string :: "host \<Rightarrow> jsstring \<Rightarrow> Date" where
  "Date_of_string h s = Date (TimeClip (Date_parse h s))"

definition Date_of_number :: "number \<Rightarrow> Date" where
  "Date_of_number v = Date (TimeClip v)"

definition getTime :: "Date \<Rightarrow> number" where
  "getTime d = DateValue d"

definition getUTCFullYear :: "Date \<Rightarrow> number" where
  "getUTCFullYear d = map_option YearFromTime (DateValue d)"

definition getUTCMonth :: "Date \<Rightarrow> number" where
  "getUTCMonth d = map_option MonthFromTime (DateValue d)"

definition getUTCDate :: "Date \<Rightarrow> number" where
  "getUTCDate d = map_option DateFromTime (DateValue d)"

definition getUTCHours :: "Date \<Rightarrow> number" where
  "getUTCHours d = map_option HourFromTime (DateValue d)"

definition getUTCMinutes :: "Date \<Rightarrow> number" where
  "getUTCMinutes d = map_option MinFromTime (DateValue d)"

definition getUTCSeconds :: "Date \<Rightarrow> number" where
  "getUTCSeconds d = map_option SecFromTime (DateValue d)"

subsection \<open>The two functions\<close>

datatype TimezoneType = UTC | IST

text \<open>A thrown value. Nothing the \<open>try\<close> blocks call throws, so none is ever built.\<close>

datatype thrown = Thrown

text \<open>
  The body of the \<open>try\<close> block of \<open>convertUTCToTimezone\<close> (lines 51 to 86),
  statement by statement. \<open>5.5 * 60 * 60 * 1000\<close> is \<open>19800000\<close>.
\<close>

definition convertUTCToTimezone_try :: "host \<Rightarrow> jsstring \<Rightarrow> TimezoneType \<Rightarrow> thrown + jsstring" where
  "convertUTCToTimezone_try h utcDateTime timezone =
     (let utcDate =
            (if includes_str utcDateTime (str ''Z'') \<or> includes_str utcDateTime (str ''+'')
             then Date_of_string h utcDateTime
             else if includes_str utcDateTime (str ''T'')
             then Date_of_string h (utcDateTime @ str ''Z'')
             else Date_of_string h utcDateTime);
          targetDate =
            (if timezone = IST
             then Date_of_number (num_add (getTime utcDate) (Some 19800000))
             else utcDate);
          year = getUTCFullYear targetDate;
          month = padStart2 (String (num_add (getUTCMonth targetDate) (Some 1)));
          day = padStart2 (String (getUTCDate targetDate));
          hours = padStart2 (String (getUTCHours targetDate));
          minutes = padStart2 (String (getUTCMinutes targetDate));
          seconds = padStart2 (String (getUTCSeconds targetDate));
          result = String year @ str ''-'' @ month @ str ''-'' @ day @ str ''T''
                   @ hours @ str '':'' @ minutes @ str '':'' @ seconds
      in Inr result)"

text \<open>
  \<open>!utcDateTime\<close> on a string is true exactly for the empty string. The \<open>catch\<close>
  clause returns the argument. The parameter \<open>timezone\<close> defaults to \<open>'UTC'\<close>; a
  call without it is \<open>convertUTCToTimezone h utcDateTime UTC\<close>.
\<close>

definition convertUTCToTimezone :: "host \<Rightarrow> jsstring \<Rightarrow> TimezoneType \<Rightarrow> jsstring" where
  "convertUTCToTimezone h utcDateTime timezone =
     (if utcDateTime = [] \<or> utcDateTime = MINUS_INFTY \<or> utcDateTime = INFTY then utcDateTime
      else if timezone = UTC then utcDateTime
      else (case convertUTCToTimezone_try h utcDateTime timezone of
              Inr result \<Rightarrow> result
            | Inl error \<Rightarrow> utcDateTime))"

text \<open>The body of the \<open>try\<close> block of \<open>convertUTCToIST\<close> (lines 45 to 73).\<close>

definition convertUTCToIST_try :: "host \<Rightarrow> jsstring \<Rightarrow> thrown + jsstring" where
  "convertUTCToIST_try h utcDateTime =
     (let utcDate =
            (if includes_str utcDateTime (str ''Z'') \<or> includes_str utcDateTime (str ''+'')
             then Date_of_string h utcDateTime
             else if includes_str utcDateTime (str ''T'')
             then Date_of_string h (utcDateTime @ str ''Z'')
             else Date_of_string h utcDateTime);
          istDate = Date_of_number (num_add (getTime utcDate) (Some 19800000));
          year = getUTCFullYear istDate;
          month = padStart2 (String (num_add (getUTCMonth istDate) (Some 1)));
          day = padStart2 (String (getUTCDate istDate));
          hours = padStart2 (String (getUTCHours istDate));
          minutes = padStart2 (String (getUTCMinutes istDate));
          seconds = padStart2 (String (getUTCSeconds istDate));
          result = String year @ str ''-'' @ month @ str ''-'' @ day @ str ''T''
                   @ hours @ str '':'' @ minutes @ str '':'' @ seconds
      in Inr result)"

definition convertUTCToIST :: "host \<Rightarrow> jsstring \<Rightarrow> jsstring" where
  "convertUTCToIST h utcDateTime =
     (if utcDateTime = [] \<or> utcDateTime = MINUS_INFTY \<or> utcDateTime = INFTY then utcDateTime
      else (case convertUTCToIST_try h utcDateTime of
              Inr result \<Rightarrow> result
            | Inl error \<Rightarrow> utcDateTime))"

subsection \<open>Notions used to state the properties\<close>

text \<open>The inputs that both functions return before anything else is looked at.\<close>

definition is_sentinel :: "jsstring \<Rightarrow> bool" where
  "is_sentinel x = (x = [] \<or> x = MINUS_INFTY \<or> x = INFTY)"

text \<open>
  The string that the parse step hands to \<open>new Date\<close>, in the words of the
  specification: as it is when it contains \<open>Z\<close> or \<open>+\<close>; with \<open>Z\<close> appended when
  it contains \<open>T\<close>; as it is otherwise.
\<close>

definition spec_date_argument :: "jsstring \<Rightarrow> jsstring" where
  "spec_date_argument x =
     (if chr CHR ''Z'' \<in> set x \<or> chr CHR ''+'' \<in> set x then x
      else if chr CHR ''T'' \<in> set x then x @ [chr CHR ''Z'']
      else x)"

text \<open>The instant an input parses to (\<open>None\<close> when it does not parse to a valid one).\<close>

definition parsed_instant :: "host \<Rightarrow> jsstring \<Rightarrow> number" where
  "parsed_instant h x = TimeClip (Date_parse h (spec_date_argument x))"

text \<open>
  The rendering the specification describes: the UTC calendar fields of an instant as
  \<open>YYYY-MM-DDTHH:mm:ss\<close>, the year in decimal, the other five fields as exactly two
  decimal digits.
\<close>

definition two_digits :: "int \<Rightarrow> jsstring" where
  "two_digits n = [digit_char (nat n div 10), digit_char (nat n mod 10)]"

definition spec_render :: "int \<Rightarrow> jsstring" where
  "spec_render t =
     String (Some (YearFromTime t)) @ str ''-'' @ two_digits (MonthFromTime t + 1) @ str ''-''
     @ two_digits (DateFromTime t) @ str ''T'' @ two_digits (HourFromTime t) @ str '':''
     @ two_digits (MinFromTime t) @ str '':'' @ two_digits (SecFromTime t)"

text \<open>
  The formatting statements of the two \<open>try\<close> blocks (lines 77 to 84, and 64 to 71),
  as a function of the Date they format.
\<close>

definition format_Date :: "Date \<Rightarrow> jsstring" where
  "format_Date d =
     String (getUTCFullYear d) @ str ''-''
     @ padStart2 (String (num_add (getUTCMonth d) (Some 1))) @ str ''-''
     @ padStart2 (String (getUTCDate d)) @ str ''T''
     @ padStart2 (String (getUTCHours d)) @ str '':''
     @ padStart2 (String (getUTCMinutes d)) @ str '':''
     @ padStart2 (String (getUTCSeconds d))"

text \<open>What both functions return for an Invalid Date.\<close>

definition NaN_string :: jsstring where
  "NaN_string = str ''NaN-NaN-NaNTNaN:NaN:NaN''"

text \<open>
  Two hosts whose engine accepts only the date-time string format (ECMA-262 allows an
  engine to have no other format): one with local time UTC, one an hour ahead of UTC.
\<close>

definition utc_host :: host where
  "utc_host = \<lparr>LocalTZA = (\<lambda>t. 0), fallback_parse = (\<lambda>s. None)\<rparr>"

definition cet_host :: host where
  "cet_host = \<lparr>LocalTZA = (\<lambda>t. 3600000), fallback_parse = (\<lambda>s. None)\<rparr>"

text \<open>
  Two hosts that do what V8 (Node, Chrome) does with one kind of string outside the
  format: in \<open>YYYY-MM-DD HH:mm:ss\<close>, with a space where the format has \<open>T\<close>, the
  fields are read as local time. One host has local time UTC, the other is an hour ahead.
\<close>

definition space_form_local :: "int \<Rightarrow> jsstring \<Rightarrow> number" where
  "space_form_local tza s =
     (if length s = 19 \<and> s ! 10 = chr CHR '' '' then
        (case iso_parse (take 10 s @ chr CHR ''T'' # drop 11 s) of None \<Rightarrow> None
         | Some (t, z) \<Rightarrow> (case z of LocalTime \<Rightarrow> Some (t - tza) | DateOnly \<Rightarrow> None
                           | UTCOffset off \<Rightarrow> None))
      else None)"

definition v8_utc_host :: host where
  "v8_utc_host = \<lparr>LocalTZA = (\<lambda>t. 0), fallback_parse = space_form_local 0\<rparr>"

definition v8_cet_host :: host where
  "v8_cet_host = \<lparr>LocalTZA = (\<lambda>t. 3600000), fallback_parse = space_form_local 3600000\<rparr>"

text \<open>
  An input whose result cannot depend on the host: the string handed to \<open>new Date\<close> is
  in the date-time string format, with a day that exists in its month, and is a date-only
  form or carries \<open>Z\<close> or an offset.
\<close>

definition zoned_input :: "jsstring \<Rightarrow> bool" where
  "zoned_input x =
     (case iso_parse (spec_date_argument x) of None \<Rightarrow> False
      | Some (t, z) \<Rightarrow> z \<noteq> LocalTime)"

text \<open>
  The UTC calendar date of an instant as year, month (1 to 12) and day; the calendar date
  of the day after; and the two halves of a rendering, the date and the time of day.
\<close>

definition utc_date :: "int \<Rightarrow> int \<times> int \<times> int" where
  "utc_date t = (YearFromTime t, MonthFromTime t + 1, DateFromTime t)"

definition next_date :: "int \<times> int \<times> int \<Rightarrow> int \<times> int \<times> int" where
  "next_date ymd =
     (case ymd of (y, m, d) \<Rightarrow>
        if d < DaysInMonth y m then (y, m, d + 1)
        else if m < 12 then (y, m + 1, 1)
        else (y + 1, 1, 1))"

definition render_date :: "int \<times> int \<times> int \<Rightarrow> jsstring" where
  "render_date ymd =
     (case ymd of (y, m, d) \<Rightarrow> String (Some y) @ str ''-'' @ two_digits m @ str ''-'' @ two_digits d)"

definition render_time :: "int \<Rightarrow> jsstring" where
  "render_time t =
     two_digits (HourFromTime t) @ str '':'' @ two_digits (MinFromTime t) @ str '':''
     @ two_digits (SecFromTime t)"

text \<open>
  The years whose rendering is a year of the date-time string format: four digits, or a
  minus sign and six digits (a year from 10000 on is rendered without the sign that the
  format requires, a year from 0 to 999 or from -99999 to -1 with too few digits).
\<close>

definition year_in_format :: "int \<Rightarrow> bool" where
  "year_in_format y = ((1000 \<le> y \<and> y \<le> 9999) \<or> (- 999999 \<le> y \<and> y \<le> - 100000))"

section \<open>Properties\<close>

subsection \<open>Strings\<close>

lemma str_Nil: "str [] = []"
  by (simp add: str_def)

lemma str_Cons: "str (c # cs) = chr c # str cs"
  by (simp add: str_def)

lemma length_str [simp]: "length (str s) = length s"
  by (simp add: str_def)

lemma includes_str_single: "includes_str s [c] = (c \<in> set s)"
  by (induction s) auto

subsection \<open>The calendar\<close>

lemma div_step:
  fixes x n :: int
  assumes "0 < n"
  shows "(x + 1) div n = x div n + (if (x + 1) mod n = 0 then 1 else 0)"
proof (cases "x mod n + 1 = n")
  case True
  have m: "n * (x div n) + x mod n = x" by simp
  have "x + 1 = n * (x div n) + n" using True m by linarith
  then have "x + 1 = n * (x div n + 1) + 0" by (simp add: algebra_simps)
  then have "(x + 1) div n = x div n + 1" and "(x + 1) mod n = 0"
    using assms by (metis add.right_neutral nonzero_mult_div_cancel_left less_irrefl,
                    metis add.right_neutral mod_mult_self1_is_0)
  then show ?thesis by simp
next
  case False
  have r: "0 \<le> x mod n + 1" "x mod n + 1 < n"
    using assms False pos_mod_bound [of n x] pos_mod_sign [of n x] by linarith+
  have e: "x + 1 = n * (x div n) + (x mod n + 1)"
    using mult_div_mod_eq [of n x] by simp
  have "(x + 1) div n = x div n"
    using int_div_pos_eq [OF e r] .
  moreover have "(x + 1) mod n = x mod n + 1"
    using int_mod_pos_eq [OF e r] .
  moreover have "x mod n + 1 \<noteq> 0"
    using pos_mod_sign [OF assms, of x] by linarith
  ultimately show ?thesis by simp
qed

lemma mod_shift4: "((y::int) - 1968) mod 4 = y mod 4"
  using mod_mult_self2 [of y 4 "- 492"] by simp

lemma mod_shift100: "((y::int) - 1900) mod 100 = y mod 100"
  using mod_mult_self2 [of y 100 "- 19"] by simp

lemma mod_shift400: "((y::int) - 1600) mod 400 = y mod 400"
  using mod_mult_self2 [of y 400 "- 4"] by simp

lemma leap_mods:
  fixes y :: int
  shows "y mod 400 = 0 \<Longrightarrow> y mod 100 = 0" and "y mod 100 = 0 \<Longrightarrow> y mod 4 = 0"
  using mod_mod_cancel [of 100 400 y] mod_mod_cancel [of 4 100 y] by simp_all

lemma leap_count:
  fixes A B C y :: int
  assumes "p400 \<Longrightarrow> p100" "p100 \<Longrightarrow> p4"
  shows "365 * (y + 1 - 1970) + (A + (if p4 then 1 else 0)) - (B + (if p100 then 1 else 0))
           + (C + (if p400 then 1 else 0))
         = 365 * (y - 1970) + A - B + C + (if p4 \<and> (\<not> p100 \<or> p400) then 366 else 365)"
  using assms by (cases p4; cases p100; cases p400; simp)

text \<open>A year has \<open>DaysInYear\<close> days.\<close>

lemma DayFromYear_Suc: "DayFromYear (y + 1) = DayFromYear y + DaysInYear y"
proof -
  have a: "(y + 1 - 1969) div 4 = (y - 1969) div 4 + (if y mod 4 = 0 then 1 else 0)"
    using div_step [of 4 "y - 1969"] mod_shift4 [of y] by simp
  have b: "(y + 1 - 1901) div 100 = (y - 1901) div 100 + (if y mod 100 = 0 then 1 else 0)"
    using div_step [of 100 "y - 1901"] mod_shift100 [of y] by simp
  have c: "(y + 1 - 1601) div 400 = (y - 1601) div 400 + (if y mod 400 = 0 then 1 else 0)"
    using div_step [of 400 "y - 1601"] mod_shift400 [of y] by simp
  show ?thesis
    unfolding DayFromYear_def DaysInYear_def leap_year_def a b c
    by (rule leap_count) (erule leap_mods)+
qed

lemma q_bounds:
  fixes d q :: int
  assumes "q = (400 * d) div 146097"
  shows "146097 * q \<le> 400 * d" and "400 * d < 146097 * q + 146097"
proof -
  have "146097 * q + (400 * d) mod 146097 = 400 * d"
    unfolding assms by (rule mult_div_mod_eq)
  moreover have "0 \<le> (400 * d) mod 146097" "(400 * d) mod 146097 < 146097"
    by simp_all
  ultimately show "146097 * q \<le> 400 * d" and "400 * d < 146097 * q + 146097"
    by linarith+
qed

lemma div_lo:
  fixes x n :: int
  assumes "0 < n"
  shows "n * (x div n) \<le> x"
  using assms by (metis mult_div_mod_eq pos_mod_sign add.commute le_add_same_cancel2)

lemma div_hi:
  fixes x n :: int
  assumes "0 < n"
  shows "x < n * (x div n) + n"
  using assms pos_mod_bound [of n x] mult_div_mod_eq [of n x] by linarith

text \<open>The estimate of the year is off by at most one.\<close>

lemma DayFromYear_estimate:
  fixes d :: int
  assumes "q = (400 * d) div 146097"
  shows "DayFromYear (1969 + q) \<le> d" and "d < DayFromYear (1972 + q)"
proof -
  note q = q_bounds [OF assms]
  define a where "a = (1969 + q - 1969) div 4"
  define b where "b = (1969 + q - 1901) div 100"
  define c where "c = (1969 + q - 1601) div 400"
  have a: "400 * a \<le> 100 * q"
    using div_lo [of 4 "1969 + q - 1969"] unfolding a_def [symmetric] by simp
  have b: "4 * q - 128 \<le> 400 * b"
    using div_hi [of 100 "1969 + q - 1901"] unfolding b_def [symmetric] by simp
  have c: "400 * c \<le> q + 368"
    using div_lo [of 400 "1969 + q - 1601"] unfolding c_def [symmetric] by simp
  have "DayFromYear (1969 + q) = 365 * q - 365 + a - b + c"
    unfolding DayFromYear_def a_def b_def c_def by simp
  moreover have "146000 * q - 146000 + 400 * a - 400 * b + 400 * c \<le> 400 * d"
    using a b c q(1) by linarith
  ultimately show "DayFromYear (1969 + q) \<le> d" by simp
  define a' where "a' = (1972 + q - 1969) div 4"
  define b' where "b' = (1972 + q - 1901) div 100"
  define c' where "c' = (1972 + q - 1601) div 400"
  have a': "100 * q \<le> 400 * a'"
    using div_hi [of 4 "1972 + q - 1969"] unfolding a'_def [symmetric] by simp
  have b': "400 * b' \<le> 4 * q + 284"
    using div_lo [of 100 "1972 + q - 1901"] unfolding b'_def [symmetric] by simp
  have c': "q - 28 \<le> 400 * c'"
    using div_hi [of 400 "1972 + q - 1601"] unfolding c'_def [symmetric] by simp
  have "DayFromYear (1972 + q) = 365 * q + 730 + a' - b' + c'"
    unfolding DayFromYear_def a'_def b'_def c'_def by simp
  moreover have "400 * d < 146000 * q + 292000 + 400 * a' - 400 * b' + 400 * c'"
    using a' b' c' q(2) by linarith
  ultimately show "d < DayFromYear (1972 + q)" by simp
qed

text \<open>
  \<open>YearFromTime t\<close> is the year ECMA-262 defines: the one whose first day is not after
  the day of \<open>t\<close> and whose successor's first day is.
\<close>

lemma YearFromTime_bounds:
  "DayFromYear (YearFromTime t) \<le> Day t" "Day t < DayFromYear (YearFromTime t + 1)"
proof -
  define d where "d = Day t"
  define q where "q = (400 * d) div 146097"
  have lo: "DayFromYear (1969 + q) \<le> d" and hi: "d < DayFromYear (1972 + q)"
    using DayFromYear_estimate [OF q_def] by simp_all
  have s1: "DayFromYear (1970 + q) = DayFromYear (1969 + q) + DaysInYear (1969 + q)"
    using DayFromYear_Suc [of "1969 + q"] by (simp add: add.commute)
  have s2: "DayFromYear (1971 + q) = DayFromYear (1970 + q) + DaysInYear (1970 + q)"
    using DayFromYear_Suc [of "1970 + q"] by (simp add: add.commute)
  have s3: "DayFromYear (1972 + q) = DayFromYear (1971 + q) + DaysInYear (1971 + q)"
    using DayFromYear_Suc [of "1971 + q"] by (simp add: add.commute)
  have y: "YearFromTime t =
      (if DayFromYear (1971 + q) \<le> d then 1971 + q
       else if DayFromYear (1970 + q) \<le> d then 1970 + q else 1969 + q)"
    by (simp add: YearFromTime_def Let_def d_def q_def add.commute)
  show "DayFromYear (YearFromTime t) \<le> Day t"
    unfolding y d_def [symmetric] using lo by simp
  show "Day t < DayFromYear (YearFromTime t + 1)"
    unfolding y d_def [symmetric] using hi s1 s2 s3 by (simp add: add.commute)
qed

lemma DayWithinYear_bounds:
  "0 \<le> DayWithinYear t" "DayWithinYear t < DaysInYear (YearFromTime t)"
  using YearFromTime_bounds [of t] DayFromYear_Suc [of "YearFromTime t"]
  by (simp_all add: DayWithinYear_def)

lemma MonthFromTime_bounds: "0 \<le> MonthFromTime t" "MonthFromTime t \<le> 11"
  by (simp_all add: MonthFromTime_def Let_def)

lemma DateFromTime_bounds:
  "1 \<le> DateFromTime t" "DateFromTime t \<le> DaysInMonth (YearFromTime t) (MonthFromTime t + 1)"
proof -
  define d where "d = DayWithinYear t"
  define l where "l = InLeapYear t"
  have d: "0 \<le> d" "d < 365 + l"
    using DayWithinYear_bounds [of t] by (auto simp: d_def l_def InLeapYear_def DaysInYear_def split: if_splits)
  have l: "l = 0 \<or> l = 1" by (simp add: l_def InLeapYear_def)
  have ll: "(if leap_year (YearFromTime t) then 1 else 0) = l"
    by (simp add: l_def InLeapYear_def)
  show "1 \<le> DateFromTime t"
    unfolding DateFromTime_def MonthFromTime_def Let_def d_def [symmetric] l_def [symmetric]
    using d l by (auto simp: month_start_def)
  show "DateFromTime t \<le> DaysInMonth (YearFromTime t) (MonthFromTime t + 1)"
    unfolding DateFromTime_def MonthFromTime_def DaysInMonth_def Let_def ll d_def [symmetric] l_def [symmetric]
    using d l by (auto simp: month_start_def)
qed

lemma DaysInMonth_le: "DaysInMonth y m \<le> 31"
  by (simp add: DaysInMonth_def month_start_def Let_def)

lemma time_field_bounds:
  "0 \<le> HourFromTime t" "HourFromTime t \<le> 23" "0 \<le> MinFromTime t" "MinFromTime t \<le> 59"
  "0 \<le> SecFromTime t" "SecFromTime t \<le> 59"
  by (simp_all add: HourFromTime_def MinFromTime_def SecFromTime_def)

subsection \<open>Formatting\<close>

lemma nat_digits_lt10: "n < 10 \<Longrightarrow> nat_digits n = [digit_char n]"
  by (simp add: nat_digits.simps)

lemma nat_digits_lt100:
  "10 \<le> n \<Longrightarrow> n < 100 \<Longrightarrow> nat_digits n = [digit_char (n div 10), digit_char (n mod 10)]"
  by (subst nat_digits.simps) (simp add: nat_digits_lt10)

lemma chr_0: "chr CHR ''0'' = digit_char 0"
  by (simp add: chr_def digit_char_def)

lemma padStart2_String:
  assumes "0 \<le> n" "n < 100"
  shows "padStart2 (String (Some n)) = two_digits n"
proof (cases "n < 10")
  case True
  then have "nat n div 10 = 0" "nat n mod 10 = nat n" "nat n < 10" using assms by simp_all
  then show ?thesis
    using assms by (simp add: padStart2_def String_def two_digits_def nat_digits_lt10 chr_0)
next
  case False
  then have "10 \<le> nat n" "nat n < 100" using assms by simp_all
  then show ?thesis
    using assms by (simp add: padStart2_def String_def two_digits_def nat_digits_lt100)
qed

lemma format_Date_NaN: "format_Date (Date None) = NaN_string"
  by (simp add: format_Date_def NaN_string_def String_def padStart2_def num_add_def
      str_Nil str_Cons getUTCFullYear_def getUTCMonth_def getUTCDate_def getUTCHours_def getUTCMinutes_def
      getUTCSeconds_def)

lemma format_Date_Some: "format_Date (Date (Some t)) = spec_render t"
proof -
  have "padStart2 (String (Some (MonthFromTime t + 1))) = two_digits (MonthFromTime t + 1)"
    using MonthFromTime_bounds [of t] by (intro padStart2_String) simp_all
  moreover have "padStart2 (String (Some (DateFromTime t))) = two_digits (DateFromTime t)"
    using DateFromTime_bounds [of t] DaysInMonth_le [of "YearFromTime t" "MonthFromTime t + 1"]
    by (intro padStart2_String) simp_all
  moreover have "padStart2 (String (Some (HourFromTime t))) = two_digits (HourFromTime t)"
    using time_field_bounds [of t] by (intro padStart2_String) simp_all
  moreover have "padStart2 (String (Some (MinFromTime t))) = two_digits (MinFromTime t)"
    using time_field_bounds [of t] by (intro padStart2_String) simp_all
  moreover have "padStart2 (String (Some (SecFromTime t))) = two_digits (SecFromTime t)"
    using time_field_bounds [of t] by (intro padStart2_String) simp_all
  ultimately show ?thesis
    by (simp add: format_Date_def spec_render_def num_add_def
      getUTCFullYear_def getUTCMonth_def getUTCDate_def getUTCHours_def getUTCMinutes_def
      getUTCSeconds_def)
qed

lemma date_argument:
  "(if includes_str x (str ''Z'') \<or> includes_str x (str ''+'') then Date_of_string h x
    else if includes_str x (str ''T'') then Date_of_string h (x @ str ''Z'')
    else Date_of_string h x) = Date_of_string h (spec_date_argument x)"
  by (simp add: spec_date_argument_def includes_str_single str_Nil str_Cons)

lemma try_Timezone:
  "convertUTCToTimezone_try h x zone =
     Inr (format_Date (if zone = IST
                       then Date_of_number (num_add (getTime (Date_of_string h (spec_date_argument x))) (Some 19800000))
                       else Date_of_string h (spec_date_argument x)))"
  unfolding convertUTCToTimezone_try_def date_argument Let_def format_Date_def by simp

lemma try_IST:
  "convertUTCToIST_try h x =
     Inr (format_Date (Date_of_number (num_add (getTime (Date_of_string h (spec_date_argument x))) (Some 19800000))))"
  unfolding convertUTCToIST_try_def date_argument Let_def format_Date_def by simp

lemma shifted_Date:
  "Date_of_number (num_add (getTime (Date_of_string h (spec_date_argument x))) (Some 19800000))
   = Date (TimeClip (num_add (parsed_instant h x) (Some 19800000)))"
  by (simp add: Date_of_number_def getTime_def Date_of_string_def parsed_instant_def)

subsection \<open>What the two functions compute\<close>

lemma not_sentinel_long: "2 < length x \<Longrightarrow> \<not> is_sentinel x"
  by (auto simp: is_sentinel_def MINUS_INFTY_def INFTY_def)

lemma TimeClip_in_range: "\<bar>t\<bar> \<le> 8640000000000000 \<Longrightarrow> TimeClip (Some t) = Some t"
  by (simp add: TimeClip_def)

lemma TimeClip_out_of_range: "8640000000000000 < \<bar>t\<bar> \<Longrightarrow> TimeClip (Some t) = None"
  by (simp add: TimeClip_def)

lemma TimeClip_Some_iff: "TimeClip v = Some t \<longleftrightarrow> v = Some t \<and> \<bar>t\<bar> \<le> 8640000000000000"
  by (auto simp: TimeClip_def split: option.splits)

lemma parsed_instant_range: "parsed_instant h x = Some t \<Longrightarrow> \<bar>t\<bar> \<le> 8640000000000000"
  by (simp add: parsed_instant_def TimeClip_Some_iff)

lemma Timezone_unfold:
  assumes "\<not> is_sentinel x" "zone \<noteq> UTC"
  shows "convertUTCToTimezone h x zone =
           format_Date (Date (TimeClip (num_add (parsed_instant h x) (Some 19800000))))"
proof -
  have "zone = IST" using assms(2) by (cases zone) simp_all
  then show ?thesis
    using assms(1)
    by (simp add: convertUTCToTimezone_def is_sentinel_def try_Timezone shifted_Date)
qed

lemma IST_unfold:
  assumes "\<not> is_sentinel x"
  shows "convertUTCToIST h x =
           format_Date (Date (TimeClip (num_add (parsed_instant h x) (Some 19800000))))"
  using assms by (simp add: convertUTCToIST_def is_sentinel_def try_IST shifted_Date)

lemma Timezone_valid:
  assumes "\<not> is_sentinel x" "parsed_instant h x = Some t" "t + 19800000 \<le> 8640000000000000"
  shows "convertUTCToTimezone h x IST = spec_render (t + 19800000)"
proof -
  have "\<bar>t + 19800000\<bar> \<le> 8640000000000000"
    using parsed_instant_range [OF assms(2)] assms(3) by linarith
  then show ?thesis
    using assms(1,2) by (simp add: Timezone_unfold num_add_def TimeClip_in_range format_Date_Some)
qed

lemma Timezone_invalid:
  assumes "\<not> is_sentinel x" "parsed_instant h x = None"
  shows "convertUTCToTimezone h x IST = NaN_string"
  using assms by (simp add: Timezone_unfold num_add_def TimeClip_def format_Date_NaN)

lemma Timezone_overflow:
  assumes "\<not> is_sentinel x" "parsed_instant h x = Some t" "8640000000000000 < t + 19800000"
  shows "convertUTCToTimezone h x IST = NaN_string"
  using assms by (simp add: Timezone_unfold num_add_def TimeClip_def format_Date_NaN)

subsection \<open>Evaluation on literals\<close>

lemmas parse_eval = str_Nil str_Cons parsed_instant_def spec_date_argument_def Date_parse_def TimeClip_def chr_def
    iso_parse_def parse_date_def parse_year_def take_digits_def is_digit_def digits_val_def
    expect_def parse_time_def parse_offset_def valid_date_def valid_time_def DaysInMonth_def
    month_start_def leap_year_def MakeDate_def MakeDay_def MakeTime_def DayFromYear_def msPerDay_def

lemmas render_eval = str_Nil str_Cons spec_render_def String_def two_digits_def chr_def nat_digits.simps
    digit_char_def
    YearFromTime_def MonthFromTime_def DateFromTime_def HourFromTime_def MinFromTime_def
    SecFromTime_def Day_def DayWithinYear_def InLeapYear_def DayFromYear_def leap_year_def
    month_start_def msPerDay_def Let_def

lemma parsed_midnight: "parsed_instant h (str ''2024-01-01T00:00:00'') = Some 1704067200000"
  by (simp add: parse_eval)

lemma parsed_evening: "parsed_instant h (str ''2024-01-01T20:00:00'') = Some 1704139200000"
  by (simp add: parse_eval)

lemma parsed_date_only: "parsed_instant h (str ''2024-01-01'') = Some 1704067200000"
  by (simp add: parse_eval)

lemma parsed_not_a_date: "parsed_instant utc_host (str ''not-a-date'') = None"
  by (simp add: parse_eval utc_host_def)

lemma parsed_last_instant:
  "parsed_instant utc_host (str ''+275760-09-13T00:00:00Z'') = Some 8640000000000000"
  by (simp add: parse_eval)

lemma parsed_local_utc:
  "parsed_instant utc_host (str ''+002024-01-01T00:00:00'') = Some 1704067200000"
  by (simp add: parse_eval utc_host_def)

lemma parsed_local_cet:
  "parsed_instant cet_host (str ''+002024-01-01T00:00:00'') = Some 1704063600000"
  by (simp add: parse_eval cet_host_def)

lemma render_0530: "spec_render 1704087000000 = str ''2024-01-01T05:30:00''"
  by (simp add: render_eval)

lemma render_0430: "spec_render 1704083400000 = str ''2024-01-01T04:30:00''"
  by (simp add: render_eval)

lemma render_next_day: "spec_render 1704159000000 = str ''2024-01-02T01:30:00''"
  by (simp add: render_eval)

lemma render_beyond_range: "spec_render 8640000019800000 = str ''275760-09-13T05:30:00''"
  by (simp add: render_eval)

lemma NaN_string_parsed: "parsed_instant utc_host NaN_string = None"
  by (simp add: NaN_string_def parse_eval utc_host_def)

subsection \<open>Hosts and date-only forms\<close>

lemma parse_offset_not_DateOnly: "parse_offset s = Some z \<Longrightarrow> z \<noteq> DateOnly"
  by (auto simp: parse_offset_def split: list.splits option.splits if_splits prod.splits)

lemma iso_parse_DateOnly_midnight:
  assumes "iso_parse x = Some (t, DateOnly)"
  shows "TimeWithinDay t = 0"
  using assms parse_offset_not_DateOnly
  by (auto simp: iso_parse_def TimeWithinDay_def MakeDate_def
           split: option.splits prod.splits if_splits)

lemma Date_parse_zoned:
  assumes "iso_parse s = Some (t, z)" "z \<noteq> LocalTime"
  shows "Date_parse h1 s = Date_parse h2 s"
  using assms by (cases z) (simp_all add: Date_parse_def)

lemma parsed_instant_zoned:
  assumes "zoned_input x"
  shows "parsed_instant h1 x = parsed_instant h2 x"
proof -
  obtain t z where "iso_parse (spec_date_argument x) = Some (t, z)" "z \<noteq> LocalTime"
    using assms by (auto simp: zoned_input_def split: option.splits)
  then show ?thesis
    unfolding parsed_instant_def using Date_parse_zoned by metis
qed

lemma zoned_midnight: "zoned_input (str ''2024-01-01T00:00:00'')"
  by (simp add: zoned_input_def parse_eval)

lemma iso_parse_date_only:
  "iso_parse (str ''2024-01-01'') = Some (MakeDate (MakeDay 2024 0 1) 0, DateOnly)"
  by (simp add: parse_eval)

lemma MakeDate_date_only: "MakeDate (MakeDay 2024 0 1) 0 = 1704067200000"
  by (simp add: parse_eval)

subsection \<open>Reading back what was rendered\<close>

lemma unat_digit: "k < 10 \<Longrightarrow> unat (digit_char k) = 48 + k"
  unfolding digit_char_def by (rule of_nat_inverse) simp_all

lemma is_digit_of_nat: "k < 10 \<Longrightarrow> is_digit (digit_char k)"
  by (simp add: is_digit_def word_le_nat_alt unat_digit)

lemma is_digit_not_sign:
  assumes "is_digit c"
  shows "c \<noteq> chr CHR ''+''" "c \<noteq> chr CHR ''-''" "c \<noteq> chr CHR ''Z''" "c \<noteq> chr CHR ''T''"
    "c \<noteq> chr CHR '':''"
  using assms by (auto simp: is_digit_def chr_def)

lemma digits_val_snoc: "digits_val (xs @ [c]) = 10 * digits_val xs + (unat c - 48)"
  by (simp add: digits_val_def)

lemma digits_val_nat_digits: "digits_val (nat_digits n) = n"
proof (induction n rule: nat_digits.induct)
  case (1 n)
  show ?case
  proof (cases "n < 10")
    case True
    then show ?thesis
      by (simp add: nat_digits_lt10 digits_val_def unat_digit)
  next
    case False
    have m: "n mod 10 < 10" by simp
    have "nat_digits n = nat_digits (n div 10) @ [digit_char (n mod 10)]"
      using False by (subst nat_digits.simps) simp
    then show ?thesis
      using 1 False unat_digit [OF m] by (simp add: digits_val_snoc)
  qed
qed

lemma all_digits_nat_digits: "list_all is_digit (nat_digits n)"
proof (induction n rule: nat_digits.induct)
  case (1 n)
  show ?case
  proof (cases "n < 10")
    case True
    then show ?thesis
      by (simp add: nat_digits_lt10 is_digit_of_nat)
  next
    case False
    have m: "n mod 10 < 10" by simp
    have "nat_digits n = nat_digits (n div 10) @ [digit_char (n mod 10)]"
      using False by (subst nat_digits.simps) simp
    then show ?thesis
      using 1 False is_digit_of_nat [OF m] by (simp)
  qed
qed

lemma length_nat_digits_step: "10 \<le> n \<Longrightarrow> length (nat_digits n) = Suc (length (nat_digits (n div 10)))"
  by (subst nat_digits.simps) simp

lemma length_nat_digits_4:
  assumes "1000 \<le> n" "n < 10000"
  shows "length (nat_digits n) = 4"
proof -
  have a: "10 \<le> n" "10 \<le> n div 10" "10 \<le> n div 10 div 10" "n div 10 div 10 div 10 < 10"
    using assms by linarith+
  show ?thesis
    using a by (simp add: length_nat_digits_step nat_digits_lt10)
qed

lemma take_digits_nat_digits:
  assumes "length (nat_digits n) = k"
  shows "take_digits k (nat_digits n @ r) = Some (n, r)"
  using assms by (simp add: take_digits_def all_digits_nat_digits digits_val_nat_digits)

lemma take_digits_two:
  assumes "0 \<le> n" "n < 100"
  shows "take_digits 2 (two_digits n @ r) = Some (nat n, r)"
proof -
  have a: "nat n div 10 < 10" "nat n mod 10 < 10" using assms by simp_all
  have "10 * (nat n div 10) + nat n mod 10 = nat n" by simp
  then show ?thesis
    using is_digit_of_nat [OF a(1)] is_digit_of_nat [OF a(2)] unat_digit [OF a(1)] unat_digit [OF a(2)]
    by (simp add: take_digits_def two_digits_def digits_val_def)
qed

lemma expect_same: "expect c (chr c # r) = Some r"
  by (simp add: expect_def)

lemma expect_dot_Z: "expect CHR ''.'' [chr CHR ''Z''] = None"
  by (simp add: expect_def chr_def)


lemma parse_year_digits:
  assumes "1000 \<le> y" "y \<le> 9999"
  shows "parse_year (String (Some y) @ r) = Some (y, r)"
proof -
  have S: "String (Some y) = nat_digits (nat y)"
    using assms by (simp add: String_def)
  have len: "length (nat_digits (nat y)) = 4"
    using assms by (intro length_nat_digits_4) simp_all
  then obtain c cs where c: "nat_digits (nat y) = c # cs"
    by (cases "nat_digits (nat y)") simp_all
  have "is_digit c"
    using all_digits_nat_digits [of "nat y"] c by simp
  then have sign: "c \<noteq> chr CHR ''+''" "c \<noteq> chr CHR ''-''"
    by (rule is_digit_not_sign)+
  have "take_digits 4 (c # cs @ r) = Some (nat y, r)"
    using take_digits_nat_digits [OF len, of r] c by simp
  then show ?thesis
    using sign assms by (simp add: parse_year_def S c)
qed

lemma length_nat_digits_6:
  assumes "100000 \<le> n" "n < 1000000"
  shows "length (nat_digits n) = 6"
proof -
  have a: "10 \<le> n" "10 \<le> n div 10" "10 \<le> n div 10 div 10" "10 \<le> n div 10 div 10 div 10"
    "10 \<le> n div 10 div 10 div 10 div 10" "n div 10 div 10 div 10 div 10 div 10 < 10"
    using assms by linarith+
  show ?thesis
    using a by (simp add: length_nat_digits_step nat_digits_lt10)
qed

lemma parse_year_negative:
  assumes "- 999999 \<le> y" "y \<le> - 100000"
  shows "parse_year (String (Some y) @ r) = Some (y, r)"
proof -
  have S: "String (Some y) = chr CHR ''-'' # nat_digits (nat (- y))"
    using assms by (simp add: String_def)
  have len: "length (nat_digits (nat (- y))) = 6"
    using assms by (intro length_nat_digits_6) simp_all
  have "take_digits 6 (nat_digits (nat (- y)) @ r) = Some (nat (- y), r)"
    using len by (rule take_digits_nat_digits)
  moreover have "nat (- y) \<noteq> 0" "- int (nat (- y)) = y"
    using assms by simp_all
  ultimately show ?thesis
    by (simp add: parse_year_def S)
qed

lemma parse_year_rendered:
  assumes "year_in_format y"
  shows "parse_year (String (Some y) @ r) = Some (y, r)"
  using assms parse_year_digits [of y r] parse_year_negative [of y r]
  by (auto simp: year_in_format_def)

lemma parse_date_formatted:
  assumes "year_in_format y" "0 \<le> m" "m < 100" "0 \<le> d" "d < 100"
  shows "parse_date (String (Some y) @ chr CHR ''-'' # two_digits m @ chr CHR ''-'' # two_digits d @ r)
           = Some ((y, m, d), r)"
  using assms
  by (simp add: parse_date_def parse_year_rendered expect_same take_digits_two)

lemma parse_time_formatted:
  assumes "0 \<le> hh" "hh < 100" "0 \<le> mi" "mi < 100" "0 \<le> ss" "ss < 100"
  shows "parse_time (two_digits hh @ chr CHR '':'' # two_digits mi @ chr CHR '':'' # two_digits ss
                     @ [chr CHR ''Z''])
           = Some ((hh, mi, ss, 0), [chr CHR ''Z''])"
proof -
  have "expect CHR ''.'' [chr CHR ''Z''] = None"
    by (simp add: expect_def chr_def)
  then show ?thesis
    using assms
    by (simp add: parse_time_def expect_same take_digits_two)
qed

lemma parse_offset_Z: "parse_offset [chr CHR ''Z''] = Some (UTCOffset 0)"
  by (simp add: parse_offset_def)

text \<open>
  A rendering with a four-digit year is in the date-time string format once \<open>Z\<close> is
  appended, and is read back field by field.
\<close>

lemma iso_parse_formatted:
  assumes "year_in_format y" "1 \<le> m" "m \<le> 12" "1 \<le> d" "d \<le> DaysInMonth y m"
    and "0 \<le> hh" "hh \<le> 23" "0 \<le> mi" "mi \<le> 59" "0 \<le> ss" "ss \<le> 59"
  shows "iso_parse (String (Some y) @ chr CHR ''-'' # two_digits m @ chr CHR ''-'' # two_digits d
                    @ chr CHR ''T'' # two_digits hh @ chr CHR '':'' # two_digits mi
                    @ chr CHR '':'' # two_digits ss @ [chr CHR ''Z''])
           = Some (MakeDate (MakeDay y (m - 1) d) (MakeTime hh mi ss 0), UTCOffset 0)"
proof -
  let ?time = "two_digits hh @ chr CHR '':'' # two_digits mi @ chr CHR '':'' # two_digits ss
               @ [chr CHR ''Z'']"
  have d100: "0 \<le> d" "d < 100"
    using assms(4,5) DaysInMonth_le [of y m] by linarith+
  have pd: "parse_date (String (Some y) @ chr CHR ''-'' # two_digits m @ chr CHR ''-'' # two_digits d
                        @ chr CHR ''T'' # ?time) = Some ((y, m, d), chr CHR ''T'' # ?time)"
    using assms(1-3) d100 by (intro parse_date_formatted) simp_all
  have pt: "parse_time ?time = Some ((hh, mi, ss, 0), [chr CHR ''Z''])"
    using assms(6-11) by (intro parse_time_formatted) simp_all
  show ?thesis
    unfolding iso_parse_def pd
    using assms by (simp add: expect_same pt parse_offset_Z valid_date_def valid_time_def)
qed

lemma all_digits_two_digits:
  assumes "0 \<le> n" "n < 100"
  shows "list_all is_digit (two_digits n)"
proof -
  have "nat n div 10 < 10" "nat n mod 10 < 10" using assms by simp_all
  then show ?thesis by (simp add: two_digits_def is_digit_of_nat)
qed

lemma spec_render_cons:
  "spec_render t =
     String (Some (YearFromTime t)) @ chr CHR ''-'' # two_digits (MonthFromTime t + 1)
     @ chr CHR ''-'' # two_digits (DateFromTime t) @ chr CHR ''T'' # two_digits (HourFromTime t)
     @ chr CHR '':'' # two_digits (MinFromTime t) @ chr CHR '':'' # two_digits (SecFromTime t)"
  by (simp add: spec_render_def str_Nil str_Cons)

lemma field_ranges:
  "0 \<le> MonthFromTime t + 1" "MonthFromTime t + 1 < 100" "0 \<le> DateFromTime t" "DateFromTime t < 100"
  "0 \<le> HourFromTime t" "HourFromTime t < 100" "0 \<le> MinFromTime t" "MinFromTime t < 100"
  "0 \<le> SecFromTime t" "SecFromTime t < 100"
  using MonthFromTime_bounds [of t] DateFromTime_bounds [of t] time_field_bounds [of t]
    DaysInMonth_le [of "YearFromTime t" "MonthFromTime t + 1"]
  by linarith+

lemma length_spec_render: "2 < length (spec_render t)"
  by (simp add: spec_render_cons two_digits_def)

lemma String_chars:
  assumes "c \<in> set (String (Some y))"
  shows "is_digit c \<or> c = chr CHR ''-''"
  using assms all_digits_nat_digits [of "nat y"] all_digits_nat_digits [of "nat (- y)"]
  by (auto simp: String_def list_all_iff split: if_splits)

lemma spec_date_argument_render:
  "spec_date_argument (spec_render t) = spec_render t @ [chr CHR ''Z'']"
proof -
  note f = field_ranges [of t]
  have d: "list_all is_digit (two_digits (MonthFromTime t + 1))"
      "list_all is_digit (two_digits (DateFromTime t))"
      "list_all is_digit (two_digits (HourFromTime t))"
      "list_all is_digit (two_digits (MinFromTime t))"
      "list_all is_digit (two_digits (SecFromTime t))"
    using f by (simp_all add: all_digits_two_digits)
  have sep: "chr CHR ''-'' \<noteq> chr CHR ''Z''" "chr CHR ''T'' \<noteq> chr CHR ''Z''" "chr CHR '':'' \<noteq> chr CHR ''Z''"
    "chr CHR ''-'' \<noteq> chr CHR ''+''" "chr CHR ''T'' \<noteq> chr CHR ''+''" "chr CHR '':'' \<noteq> chr CHR ''+''"
    by (simp_all add: chr_def)
  have nd: "c \<notin> set xs" if "list_all is_digit xs" "\<not> is_digit c" for c xs
    using that by (auto simp: list_all_iff)
  have Z: "\<not> is_digit (chr CHR ''Z'')" and P: "\<not> is_digit (chr CHR ''+'')"
    by (simp_all add: is_digit_def chr_def)
  have yZ: "chr CHR ''Z'' \<notin> set (String (Some (YearFromTime t)))"
    using String_chars [of "chr CHR ''Z''" "YearFromTime t"] Z sep by auto
  have yP: "chr CHR ''+'' \<notin> set (String (Some (YearFromTime t)))"
    using String_chars [of "chr CHR ''+''" "YearFromTime t"] P sep by auto
  have "chr CHR ''Z'' \<notin> set (spec_render t)"
    using yZ d [THEN nd, OF Z] sep by (simp add: spec_render_cons)
  moreover have "chr CHR ''+'' \<notin> set (spec_render t)"
    using yP d [THEN nd, OF P] sep by (simp add: spec_render_cons)
  moreover have "chr CHR ''T'' \<in> set (spec_render t)"
    by (simp add: spec_render_cons)
  ultimately show ?thesis by (simp add: spec_date_argument_def)
qed

lemma MakeDay_fields: "MakeDay (YearFromTime t) (MonthFromTime t) (DateFromTime t) = Day t"
  by (simp add: MakeDay_def DateFromTime_def DayWithinYear_def InLeapYear_def)

lemma iso_parse_render:
  assumes "year_in_format (YearFromTime t)"
  shows "iso_parse (spec_render t @ [chr CHR ''Z''])
           = Some (MakeDate (Day t) (MakeTime (HourFromTime t) (MinFromTime t) (SecFromTime t) 0),
                   UTCOffset 0)"
proof -
  have "iso_parse (spec_render t @ [chr CHR ''Z''])
          = Some (MakeDate (MakeDay (YearFromTime t) (MonthFromTime t + 1 - 1) (DateFromTime t))
                    (MakeTime (HourFromTime t) (MinFromTime t) (SecFromTime t) 0), UTCOffset 0)"
    unfolding spec_render_cons
    using assms MonthFromTime_bounds [of t] DateFromTime_bounds [of t] time_field_bounds [of t]
      iso_parse_formatted [of "YearFromTime t" "MonthFromTime t + 1" "DateFromTime t"
        "HourFromTime t" "MinFromTime t" "SecFromTime t"]
    by simp
  then show ?thesis by (simp add: MakeDay_fields)
qed

lemma DayFromYear_le_add: "DayFromYear y \<le> DayFromYear (y + int n)"
proof (induction n)
  case 0
  then show ?case by simp
next
  case (Suc n)
  have "DayFromYear (y + int (Suc n)) = DayFromYear (y + int n) + DaysInYear (y + int n)"
    using DayFromYear_Suc [of "y + int n"] by (simp add: ac_simps)
  moreover have "0 \<le> DaysInYear (y + int n)" by (simp add: DaysInYear_def)
  ultimately show ?case using Suc by linarith
qed

lemma DayFromYear_mono:
  assumes "y \<le> z"
  shows "DayFromYear y \<le> DayFromYear z"
  using DayFromYear_le_add [of y "nat (z - y)"] assms by simp

lemma rendered_year_days:
  assumes "(1000 \<le> YearFromTime t \<and> YearFromTime t \<le> 9999) \<or> YearFromTime t \<le> - 100000"
  shows "Day t < 2932897"
proof -
  have "YearFromTime t + 1 \<le> 10000" using assms by linarith
  then have "DayFromYear (YearFromTime t + 1) \<le> DayFromYear 10000"
    by (rule DayFromYear_mono)
  moreover have "DayFromYear 10000 = 2932897"
    by (simp add: DayFromYear_def)
  ultimately show ?thesis
    using YearFromTime_bounds(2) [of t] by linarith
qed

lemma early_year_days:
  assumes "YearFromTime t < - 999999"
  shows "Day t < - 100000000"
proof -
  have "YearFromTime t + 1 \<le> - 999999" using assms by linarith
  then have "DayFromYear (YearFromTime t + 1) \<le> DayFromYear (- 999999)"
    by (rule DayFromYear_mono)
  moreover have "DayFromYear (- 999999) < - 100000000"
    by (simp add: DayFromYear_def)
  ultimately show ?thesis
    using YearFromTime_bounds(2) [of t] by linarith
qed

lemma Day_lower:
  assumes "- 8640000000000000 \<le> t"
  shows "- 100000000 \<le> Day t"
proof -
  have "(- 8640000000000000) div 86400000 \<le> t div 86400000"
    using assms by (intro zdiv_mono1) simp_all
  then show ?thesis by (simp add: Day_def msPerDay_def)
qed

lemma Day_bounds: "msPerDay * Day t \<le> t" "t < msPerDay * Day t + msPerDay"
  using div_lo [of msPerDay t] div_hi [of msPerDay t] by (simp_all add: Day_def msPerDay_def)


subsection \<open>Renderings that differ\<close>

lemma digit_char_inj:
  assumes "a < 10" "b < 10" "digit_char a = digit_char b"
  shows "a = b"
proof -
  have "48 + a = unat (digit_char a)" by (simp only: unat_digit [OF assms(1)])
  also have "\<dots> = unat (digit_char b)" by (simp only: assms(3))
  also have "\<dots> = 48 + b" by (simp only: unat_digit [OF assms(2)])
  finally show ?thesis by linarith
qed

lemma two_digits_inj:
  assumes "0 \<le> a" "a < 100" "0 \<le> b" "b < 100" "two_digits a = two_digits b"
  shows "a = b"
proof -
  have r: "nat a div 10 < 10" "nat a mod 10 < 10" "nat b div 10 < 10" "nat b mod 10 < 10"
    using assms(1-4) by simp_all
  have "nat a div 10 = nat b div 10" "nat a mod 10 = nat b mod 10"
    using assms(5) r by (auto simp: two_digits_def intro: digit_char_inj)
  then have "nat a = nat b"
    by (metis mult_div_mod_eq)
  then show ?thesis using assms(1,3) by simp
qed

lemma spec_render_hour_minute:
  assumes "spec_render a = spec_render b"
  shows "HourFromTime a = HourFromTime b" "MinFromTime a = MinFromTime b"
proof -
  let ?tail = "\<lambda>t. chr CHR ''-'' # two_digits (MonthFromTime t + 1)
     @ chr CHR ''-'' # two_digits (DateFromTime t) @ chr CHR ''T'' # two_digits (HourFromTime t)
     @ chr CHR '':'' # two_digits (MinFromTime t) @ chr CHR '':'' # two_digits (SecFromTime t)"
  have len: "length (?tail a) = length (?tail b)"
    by (simp add: two_digits_def)
  have e: "String (Some (YearFromTime a)) @ ?tail a = String (Some (YearFromTime b)) @ ?tail b"
    using assms unfolding spec_render_cons .
  have "?tail a = ?tail b"
    using append_eq_append_conv [of "String (Some (YearFromTime a))"
            "String (Some (YearFromTime b))" "?tail a" "?tail b"] e len
    by blast
  then have "two_digits (HourFromTime a) = two_digits (HourFromTime b)"
    "two_digits (MinFromTime a) = two_digits (MinFromTime b)"
    by (simp_all add: two_digits_def)
  then show "HourFromTime a = HourFromTime b" "MinFromTime a = MinFromTime b"
    using field_ranges [of a] field_ranges [of b] by (auto intro: two_digits_inj)
qed

lemma minute_of_day: "60 * HourFromTime t + MinFromTime t = (t div 60000) mod 1440"
proof -
  have "t div 3600000 = t div 60000 div 60"
    using zdiv_zmult2_eq [of 60 t 60000] by simp
  then show ?thesis
    using zmod_zmult2_eq [of 24 "t div 60000" 60]
    by (simp add: HourFromTime_def MinFromTime_def)
qed

text \<open>
  Reading a rendering back and shifting it again moves the minute of the day by 330,
  so the hour or the minute changes.
\<close>

lemma shifted_again_differs:
  fixes t :: int
  defines "t2 \<equiv> MakeDate (Day t) (MakeTime (HourFromTime t) (MinFromTime t) (SecFromTime t) 0)"
  shows "spec_render (t2 + 19800000) \<noteq> spec_render t"
proof
  assume eq: "spec_render (t2 + 19800000) = spec_render t"
  define k where "k = 60 * HourFromTime t + MinFromTime t"
  have k: "0 \<le> k" "k < 1440"
    using time_field_bounds [of t] by (simp_all add: k_def)
  have s: "0 \<le> 1000 * SecFromTime t" "1000 * SecFromTime t < 60000"
    using time_field_bounds [of t] by simp_all
  have "t2 + 19800000 = 60000 * (1440 * Day t + k + 330) + 1000 * SecFromTime t"
    by (simp add: t2_def MakeDate_def MakeTime_def msPerDay_def k_def)
  then have "(t2 + 19800000) div 60000 = 1440 * Day t + k + 330"
    using s by (rule int_div_pos_eq)
  then have "((t2 + 19800000) div 60000) mod 1440 = (k + 330) mod 1440"
    by (simp add: add.assoc)
  moreover have "60 * HourFromTime (t2 + 19800000) + MinFromTime (t2 + 19800000) = k"
    using spec_render_hour_minute [OF eq] by (simp add: k_def)
  ultimately have "(k + 330) mod 1440 = k"
    using minute_of_day [of "t2 + 19800000"] by simp
  moreover have "k mod 1440 = k" using k by simp
  ultimately have "(k + 330) mod 1440 = k mod 1440" by simp
  then have "(1440::int) dvd k + 330 - k"
    by (simp only: mod_eq_dvd_iff)
  then show False by simp
qed


lemma year_2024: "YearFromTime (1704067200000 + 19800000) = 2024"
  by (simp add: YearFromTime_def Day_def DayFromYear_def msPerDay_def Let_def)

lemma converted_twice:
  assumes "\<not> is_sentinel x" "parsed_instant h x = Some t"
    and "(1000 \<le> YearFromTime (t + 19800000) \<and> YearFromTime (t + 19800000) \<le> 9999)
         \<or> YearFromTime (t + 19800000) \<le> - 100000"
  shows "convertUTCToTimezone h x IST = spec_render (t + 19800000)"
    and "convertUTCToTimezone h (spec_render (t + 19800000)) IST \<noteq> spec_render (t + 19800000)"
proof -
  define t1 where "t1 = t + 19800000"
  define t2 where "t2 = MakeDate (Day t1) (MakeTime (HourFromTime t1) (MinFromTime t1) (SecFromTime t1) 0)"
  have y: "(1000 \<le> YearFromTime t1 \<and> YearFromTime t1 \<le> 9999) \<or> YearFromTime t1 \<le> - 100000"
    using assms(3) by (simp add: t1_def)
  have "- 8640000000000000 \<le> t1"
    using parsed_instant_range [OF assms(2)] by (simp add: t1_def)
  then have lo: "- 100000000 \<le> Day t1" by (rule Day_lower)
  have hi: "Day t1 < 2932897" using y by (rule rendered_year_days)
  have yf: "year_in_format (YearFromTime t1)"
    using y lo early_year_days [of t1] by (auto simp: year_in_format_def)
  have t1_hi: "t1 < 86400000 * Day t1 + 86400000"
    using Day_bounds(2) [of t1] by (simp add: msPerDay_def)
  have "t + 19800000 \<le> 8640000000000000"
    using t1_hi hi by (simp add: t1_def)
  then show first: "convertUTCToTimezone h x IST = spec_render (t + 19800000)"
    using assms(1,2) by (intro Timezone_valid)
  have t2: "t2 = 86400000 * Day t1 + (3600000 * HourFromTime t1 + 60000 * MinFromTime t1
                   + 1000 * SecFromTime t1)"
    by (simp add: t2_def MakeDate_def MakeTime_def msPerDay_def)
  have t2_range: "- 8640000000000000 \<le> t2" "t2 + 19800000 \<le> 8640000000000000"
    using lo hi time_field_bounds [of t1] unfolding t2 by linarith+
  have ns: "\<not> is_sentinel (spec_render t1)"
    using length_spec_render by (rule not_sentinel_long)
  have "parsed_instant h (spec_render t1) = TimeClip (Some t2)"
    using iso_parse_render [OF yf]
    by (simp add: parsed_instant_def Date_parse_def t2_def spec_date_argument_render)
  moreover have "\<bar>t2\<bar> \<le> 8640000000000000"
    using t2_range by linarith
  ultimately have p2: "parsed_instant h (spec_render t1) = Some t2"
    by (simp add: TimeClip_in_range)
  have "convertUTCToTimezone h (spec_render t1) IST = spec_render (t2 + 19800000)"
    using ns p2 t2_range(2) by (rule Timezone_valid)
  then show "convertUTCToTimezone h (spec_render (t + 19800000)) IST \<noteq> spec_render (t + 19800000)"
    using shifted_again_differs [of t1] by (simp add: t1_def t2_def)
qed

subsection \<open>The next calendar day\<close>

lemma YearFromTime_unique:
  assumes "DayFromYear y \<le> Day t" "Day t < DayFromYear (y + 1)"
  shows "YearFromTime t = y"
proof (rule ccontr)
  assume ne: "YearFromTime t \<noteq> y"
  note b = YearFromTime_bounds [of t]
  show False
  proof (cases "YearFromTime t < y")
    case True
    then have "DayFromYear (YearFromTime t + 1) \<le> DayFromYear y"
      by (intro DayFromYear_mono) simp
    then show False using b(2) assms(1) by linarith
  next
    case False
    then have "DayFromYear (y + 1) \<le> DayFromYear (YearFromTime t)"
      using ne by (intro DayFromYear_mono) simp
    then show False using b(1) assms(2) by linarith
  qed
qed

lemma utc_date_same_day:
  assumes "Day a = Day b"
  shows "utc_date a = utc_date b"
  using assms
  by (simp add: utc_date_def YearFromTime_def DayWithinYear_def InLeapYear_def MonthFromTime_def
      DateFromTime_def)

lemma month_table_next:
  fixes d l :: int
  assumes "0 \<le> d" "d + 1 < 365 + l" "l = 0 \<or> l = 1"
  defines "mo \<equiv> \<lambda>d. (if d < 31 then 0 else if d < 59 + l then 1 else if d < 90 + l then 2
      else if d < 120 + l then 3 else if d < 151 + l then 4 else if d < 181 + l then 5
      else if d < 212 + l then 6 else if d < 243 + l then 7 else if d < 273 + l then 8
      else if d < 304 + l then 9 else if d < 334 + l then 10 else (11::int))"
  shows "(mo (d + 1) + 1, d + 1 - month_start l (mo (d + 1)) + 1)
         = (if d - month_start l (mo d) + 1 < month_start l (mo d + 1) - month_start l (mo d + 1 - 1)
            then (mo d + 1, d - month_start l (mo d) + 1 + 1)
            else if mo d + 1 < 12 then (mo d + 1 + 1, 1)
            else (1, 1))"
  using assms(3)
proof
  assume "l = 0"
  then show ?thesis
    using assms(1,2) unfolding mo_def month_start_def by simp
next
  assume "l = 1"
  then show ?thesis
    using assms(1,2) unfolding mo_def month_start_def by simp
qed


lemma utc_date_next_day:
  assumes "Day t' = Day t + 1"
  shows "utc_date t' = next_date (utc_date t)"
proof -
  define Y where "Y = YearFromTime t"
  define d where "d = DayWithinYear t"
  define l where "l = InLeapYear t"
  have d: "0 \<le> d" "d < 365 + l"
    using DayWithinYear_bounds [of t]
    by (auto simp: d_def l_def InLeapYear_def DaysInYear_def split: if_splits)
  have l: "l = 0 \<or> l = 1" by (simp add: l_def InLeapYear_def)
  have ll: "(if leap_year Y then 1 else 0) = l"
    by (simp add: l_def Y_def InLeapYear_def)
  have day: "Day t = DayFromYear Y + d"
    by (simp add: d_def Y_def DayWithinYear_def)
  have next_year: "DayFromYear (Y + 1) = DayFromYear Y + 365 + l"
    using DayFromYear_Suc [of Y] ll by (simp add: DaysInYear_def split: if_splits)
  show ?thesis
  proof (cases "d + 1 < 365 + l")
    case True
    have Y': "YearFromTime t' = Y"
      using d True by (intro YearFromTime_unique) (simp_all add: assms day next_year)
    have d': "DayWithinYear t' = d + 1"
      by (simp add: DayWithinYear_def Y' assms day)
    have l': "InLeapYear t' = l"
      by (simp add: InLeapYear_def Y' ll)
    have "(MonthFromTime t' + 1, DateFromTime t')
          = (if DateFromTime t < DaysInMonth Y (MonthFromTime t + 1)
             then (MonthFromTime t + 1, DateFromTime t + 1)
             else if MonthFromTime t + 1 < 12 then (MonthFromTime t + 1 + 1, 1)
             else (1, 1))"
      unfolding DateFromTime_def MonthFromTime_def DaysInMonth_def Let_def ll d' l'
        d_def [symmetric] l_def [symmetric]
      using d(1) True l by (rule month_table_next)
    moreover have "\<not> (\<not> DateFromTime t < DaysInMonth Y (MonthFromTime t + 1)
                     \<and> \<not> MonthFromTime t + 1 < 12)"
      unfolding DateFromTime_def MonthFromTime_def DaysInMonth_def Let_def ll
        d_def [symmetric] l_def [symmetric]
      using d(1) True l by (auto simp: month_start_def)
    ultimately show ?thesis
      by (auto simp: utc_date_def next_date_def Y' Y_def [symmetric])
  next
    case False
    then have last: "d = 364 + l" using d by linarith
    have "DayFromYear (Y + 1 + 1) = DayFromYear (Y + 1) + DaysInYear (Y + 1)"
      by (rule DayFromYear_Suc)
    moreover have "0 < DaysInYear (Y + 1)" by (simp add: DaysInYear_def)
    ultimately have Y': "YearFromTime t' = Y + 1"
      by (intro YearFromTime_unique) (simp_all add: assms day next_year last)
    have d': "DayWithinYear t' = 0"
      by (simp add: DayWithinYear_def Y' assms day next_year last)
    have new: "utc_date t' = (Y + 1, 1, 1)"
      by (simp add: utc_date_def Y' MonthFromTime_def DateFromTime_def d' month_start_def)
    have "MonthFromTime t = 11" "DateFromTime t = 31"
      unfolding DateFromTime_def MonthFromTime_def Let_def d_def [symmetric] l_def [symmetric]
      using last l by (auto simp: month_start_def)
    moreover have "DaysInMonth Y 12 = 31"
      by (simp add: DaysInMonth_def month_start_def)
    ultimately have "next_date (utc_date t) = (Y + 1, 1, 1)"
      by (simp add: utc_date_def next_date_def Y_def [symmetric])
    then show ?thesis using new by simp
  qed
qed

lemma Day_of_shifted:
  "msPerDay \<le> TimeWithinDay t + 19800000 \<Longrightarrow> Day (t + 19800000) = Day t + 1"
  "TimeWithinDay t + 19800000 < msPerDay \<Longrightarrow> Day (t + 19800000) = Day t"
proof -
  define q where "q = t div 86400000"
  define r where "r = t mod 86400000"
  have e: "t = 86400000 * q + r" by (simp add: q_def r_def)
  have r: "0 \<le> r" "r < 86400000" by (simp_all add: r_def)
  have D: "Day t = q" "TimeWithinDay t = r"
    by (simp_all add: Day_def TimeWithinDay_def msPerDay_def q_def r_def)
  show "Day (t + 19800000) = Day t + 1" if "msPerDay \<le> TimeWithinDay t + 19800000"
  proof -
    have "t + 19800000 = 86400000 * (q + 1) + (r + 19800000 - 86400000)"
      unfolding e by (simp add: algebra_simps)
    moreover have "0 \<le> r + 19800000 - 86400000" "r + 19800000 - 86400000 < 86400000"
      using that r by (simp_all add: msPerDay_def D)
    ultimately have "(t + 19800000) div 86400000 = q + 1"
      by (rule int_div_pos_eq)
    then show ?thesis by (simp add: Day_def msPerDay_def q_def)
  qed
  show "Day (t + 19800000) = Day t" if "TimeWithinDay t + 19800000 < msPerDay"
  proof -
    have "t + 19800000 = 86400000 * q + (r + 19800000)"
      unfolding e by simp
    moreover have "0 \<le> r + 19800000" "r + 19800000 < 86400000"
      using that r by (simp_all add: msPerDay_def D)
    ultimately have "(t + 19800000) div 86400000 = q"
      by (rule int_div_pos_eq)
    then show ?thesis by (simp add: Day_def msPerDay_def q_def)
  qed
qed

lemma spec_render_halves: "spec_render t = render_date (utc_date t) @ str ''T'' @ render_time t"
  by (simp add: spec_render_def render_date_def utc_date_def render_time_def)

subsection \<open>Date-only forms without a plus sign\<close>

lemma digit_value_le:
  assumes "is_digit c"
  shows "unat c - 48 \<le> 9"
proof -
  have "unat c \<le> 57"
    using assms by (simp add: is_digit_def word_le_nat_alt)
  then show ?thesis by linarith
qed

lemma digits_val_bound: "list_all is_digit s \<Longrightarrow> digits_val s < 10 ^ length s"
proof (induction s rule: rev_induct)
  case Nil
  then show ?case by (simp add: digits_val_def)
next
  case (snoc c s)
  then have "digits_val s < 10 ^ length s" "unat c - 48 \<le> 9"
    by (simp_all add: digit_value_le)
  then have "10 * digits_val s + (unat c - 48) < 10 * 10 ^ length s"
    by linarith
  then show ?case by (simp add: digits_val_snoc)
qed

lemma take_digits_bound: "take_digits n s = Some (v, r) \<Longrightarrow> v < 10 ^ n"
  using digits_val_bound [of "take n s"]
  by (auto simp: take_digits_def split: if_splits)

lemma parse_year_no_plus:
  assumes "parse_year s = Some (y, r)" "chr CHR ''+'' \<notin> set s"
  shows "y \<le> 9999"
proof (cases s)
  case Nil
  then show ?thesis using assms(1) by (simp add: parse_year_def)
next
  case (Cons c cs)
  then have c: "c \<noteq> chr CHR ''+''" using assms(2) by auto
  show ?thesis
  proof (cases "c = chr CHR ''-''")
    case True
    then show ?thesis
      using assms(1) Cons by (auto simp: parse_year_def split: option.splits if_splits)
  next
    case False
    then obtain n where "take_digits 4 s = Some (n, r)" "y = int n"
      using assms(1) Cons c by (auto simp: parse_year_def split: option.splits)
    then show ?thesis using take_digits_bound [of 4 s n r] by simp
  qed
qed

lemma parse_date_year:
  assumes "parse_date s = Some ((y, m, d), r)"
  shows "\<exists>r'. parse_year s = Some (y, r')"
  using assms by (auto simp: parse_date_def split: option.splits)

lemma iso_parse_DateOnly_fields:
  assumes "iso_parse x = Some (t, DateOnly)"
  shows "\<exists>y m d r. parse_date x = Some ((y, m, d), r) \<and> valid_date y m d
                  \<and> t = MakeDate (MakeDay y (m - 1) d) 0"
  using assms parse_offset_not_DateOnly
  by (auto simp: iso_parse_def split: option.splits prod.splits if_splits)

lemma MakeDay_upper:
  assumes "valid_date y m d" "y \<le> 9999"
  shows "MakeDay y (m - 1) d \<le> 2932898"
proof -
  have "DayFromYear y \<le> DayFromYear 9999"
    using assms(2) by (rule DayFromYear_mono)
  moreover have "DayFromYear 9999 = 2932532"
    by (simp add: DayFromYear_def)
  moreover have "month_start (if leap_year y then 1 else 0) (m - 1) \<le> 335"
  proof -
    have "m \<le> 12" using assms(1) by (simp add: valid_date_def)
    then have "m - 1 \<le> 1 \<or> m - 1 = 2 \<or> m - 1 = 3 \<or> m - 1 = 4 \<or> m - 1 = 5 \<or> m - 1 = 6
        \<or> m - 1 = 7 \<or> m - 1 = 8 \<or> m - 1 = 9 \<or> m - 1 = 10 \<or> m - 1 = 11"
      by presburger
    then show ?thesis
      by (elim disjE) (simp_all add: month_start_def)
  qed
  moreover have "d \<le> 31"
    using assms(1) DaysInMonth_le [of y m] by (simp add: valid_date_def)
  ultimately show ?thesis
    by (simp add: MakeDay_def)
qed

lemma date_only_upper:
  assumes "iso_parse x = Some (t, DateOnly)" "chr CHR ''+'' \<notin> set x"
  shows "t + 19800000 \<le> 8640000000000000"
proof -
  obtain y m d r where p: "parse_date x = Some ((y, m, d), r)" "valid_date y m d"
      "t = MakeDate (MakeDay y (m - 1) d) 0"
    using iso_parse_DateOnly_fields [OF assms(1)] by blast
  obtain r' where "parse_year x = Some (y, r')"
    using parse_date_year [OF p(1)] by blast
  then have "y \<le> 9999" using assms(2) by (rule parse_year_no_plus)
  then have "MakeDay y (m - 1) d \<le> 2932898"
    using p(2) by (intro MakeDay_upper)
  then show ?thesis
    by (simp add: p(3) MakeDate_def msPerDay_def)
qed

subsection \<open>More literals\<close>

lemma parsed_before_range: "parsed_instant h (str ''-271821-04-19'') = None"
  by (simp add: parse_eval)

lemma iso_parse_before_range:
  "iso_parse (str ''-271821-04-19'') = Some (- 8640000086400000, DateOnly)"
  by (simp add: parse_eval)

lemma parsed_first_instant:
  "parsed_instant h (str ''-271821-04-20T00:00:00Z'') = Some (- 8640000000000000)"
  by (simp add: parse_eval)

lemma year_first_instant: "YearFromTime (- 8640000000000000 + 19800000) = - 271821"
  by (simp add: YearFromTime_def Day_def DayFromYear_def msPerDay_def Let_def)

lemma parsed_last_evening:
  "parsed_instant h (str ''+275760-09-12T20:00:00Z'') = Some 8639999985600000"
  by (simp add: parse_eval)

lemma render_last_evening:
  "render_date (next_date (utc_date 8639999985600000)) @ str ''T''
     @ render_time (8639999985600000 + 19800000) = str ''275760-09-13T01:30:00''"
  by (simp add: render_date_def next_date_def utc_date_def render_time_def DaysInMonth_def
      render_eval)

lemma parsed_space_utc:
  "parsed_instant v8_utc_host (str ''2024-01-01 20:00:00'') = Some 1704139200000"
  by (simp add: parse_eval v8_utc_host_def space_form_local_def)

lemma parsed_space_cet:
  "parsed_instant v8_cet_host (str ''2024-01-01 20:00:00'') = Some 1704135600000"
  by (simp add: parse_eval v8_cet_host_def space_form_local_def)

lemma render_0030: "spec_render 1704155400000 = str ''2024-01-02T00:30:00''"
  by (simp add: render_eval)

lemma iso_parse_plus_year:
  "iso_parse (str ''+002024-01-01T00:00:00'') = Some (1704067200000, LocalTime)"
  by (simp add: parse_eval)

lemma Date_plus_year:
  "Date_of_string utc_host (str ''+002024-01-01T00:00:00'') = Date (Some 1704067200000)"
  "Date_of_string cet_host (str ''+002024-01-01T00:00:00'') = Date (Some 1704063600000)"
  "Date_of_string cet_host (str ''+002024-01-01T00:00:00'' @ str ''Z'') = Date (Some 1704067200000)"
  by (simp_all add: Date_of_string_def parse_eval utc_host_def cet_host_def)

section \<open>The claims\<close>

text \<open>
  C1. The claim: an input that is not a sentinel and does not parse to a valid instant
  is returned unchanged. The code does not do this: \<open>new Date\<close> does not throw on an
  unparseable string, it builds an Invalid Date, so the \<open>catch\<close> clause is never
  reached and every field is formatted from \<open>NaN\<close>. Both functions then return
  \<open>NaN-NaN-NaNTNaN:NaN:NaN\<close>.
\<close>

theorem unparseable_input_gives_NaN_string:
  assumes "\<not> is_sentinel x" and "parsed_instant h x = None"
  shows "convertUTCToTimezone h x IST = NaN_string \<and> convertUTCToIST h x = NaN_string"
  using assms
  by (simp add: Timezone_unfold IST_unfold num_add_def TimeClip_def format_Date_NaN)

theorem unparseable_input_gives_NaN_string_witness:
  "\<not> is_sentinel (str ''not-a-date'') \<and> parsed_instant utc_host (str ''not-a-date'') = None
   \<and> convertUTCToTimezone utc_host (str ''not-a-date'') IST = str ''NaN-NaN-NaNTNaN:NaN:NaN''
   \<and> convertUTCToIST utc_host (str ''not-a-date'') = str ''NaN-NaN-NaNTNaN:NaN:NaN''
   \<and> str ''NaN-NaN-NaNTNaN:NaN:NaN'' \<noteq> str ''not-a-date''"
proof -
  have s: "\<not> is_sentinel (str ''not-a-date'')"
    by (rule not_sentinel_long) simp
  show ?thesis
    using unparseable_input_gives_NaN_string [OF s parsed_not_a_date] s parsed_not_a_date
    by (simp add: NaN_string_def chr_def str_Nil str_Cons)
qed

text \<open>
  C2. Each of the three sentinels (the empty string, \<open>-\<infinity>\<close> and \<open>\<infinity>\<close>) is returned
  unchanged by \<open>convertUTCToTimezone\<close>, for every zone, and by \<open>convertUTCToIST\<close>,
  whatever the host: no sentinel reaches the parser.
\<close>

theorem sentinels_returned_unchanged:
  "convertUTCToTimezone h [] zone = [] \<and> convertUTCToTimezone h MINUS_INFTY zone = MINUS_INFTY
   \<and> convertUTCToTimezone h INFTY zone = INFTY
   \<and> convertUTCToIST h [] = [] \<and> convertUTCToIST h MINUS_INFTY = MINUS_INFTY
   \<and> convertUTCToIST h INFTY = INFTY"
  by (simp add: convertUTCToTimezone_def convertUTCToIST_def)

text \<open>
  C3. With zone \<open>UTC\<close>, \<open>convertUTCToTimezone\<close> returns every input string unchanged,
  malformed or not.
\<close>

theorem UTC_is_identity: "convertUTCToTimezone h x UTC = x"
  by (simp add: convertUTCToTimezone_def)

text \<open>
  C5. The claim: a string that contains \<open>Z\<close> or \<open>+\<close> is parsed as it is, as an
  already-zoned instant; otherwise a string that contains \<open>T\<close> is parsed with \<open>Z\<close>
  appended; otherwise it is parsed as it is. The code takes every \<open>+\<close> for zone
  information. In \<open>+002024-01-01T00:00:00\<close> the \<open>+\<close> is the sign of an expanded year:
  the string is a date-time form with no offset, it is parsed as it is, and the instant
  is read in the local zone of the host. With \<open>Z\<close> appended, as the branch for \<open>T\<close>
  does, it would be the same instant on every host.
\<close>

theorem plus_sign_taken_for_zone_information:
  "includes_str (str ''+002024-01-01T00:00:00'') (str ''+'')
   \<and> iso_parse (str ''+002024-01-01T00:00:00'') = Some (1704067200000, LocalTime)
   \<and> Date_of_string utc_host (str ''+002024-01-01T00:00:00'') = Date (Some 1704067200000)
   \<and> Date_of_string cet_host (str ''+002024-01-01T00:00:00'') = Date (Some 1704063600000)
   \<and> Date_of_string cet_host (str ''+002024-01-01T00:00:00'' @ str ''Z'')
       = Date (Some 1704067200000)
   \<and> convertUTCToTimezone utc_host (str ''+002024-01-01T00:00:00'') IST = str ''2024-01-01T05:30:00''
   \<and> convertUTCToTimezone cet_host (str ''+002024-01-01T00:00:00'') IST = str ''2024-01-01T04:30:00''"
proof -
  have s: "\<not> is_sentinel (str ''+002024-01-01T00:00:00'')"
    by (rule not_sentinel_long) simp
  have "convertUTCToTimezone utc_host (str ''+002024-01-01T00:00:00'') IST
          = spec_render (1704067200000 + 19800000)"
    using s parsed_local_utc by (rule Timezone_valid) simp
  moreover have "convertUTCToTimezone cet_host (str ''+002024-01-01T00:00:00'') IST
          = spec_render (1704063600000 + 19800000)"
    using s parsed_local_cet by (rule Timezone_valid) simp
  moreover have "includes_str (str ''+002024-01-01T00:00:00'') (str ''+'')"
    by (simp add: str_Nil str_Cons)
  ultimately show ?thesis
    by (simp add: render_0530 render_0430 iso_parse_plus_year Date_plus_year)
qed

text \<open>
  C6. The claim: the shift carries across calendar-day boundaries, the date advancing by
  one day whenever the 330 minutes cross midnight. It fails in the last hours of the
  range of Date: \<open>+275760-09-12T20:00:00Z\<close> is a valid instant, the shift crosses
  midnight, but the shifted instant is beyond \<open>8.64e15\<close> and the result is
  \<open>NaN-NaN-NaNTNaN:NaN:NaN\<close>, not a rendering of 13 September.
\<close>

theorem day_rollover_fails_at_end_of_range:
  "\<not> is_sentinel (str ''+275760-09-12T20:00:00Z'')
   \<and> parsed_instant utc_host (str ''+275760-09-12T20:00:00Z'') = Some 8639999985600000
   \<and> msPerDay \<le> TimeWithinDay 8639999985600000 + 19800000
   \<and> convertUTCToTimezone utc_host (str ''+275760-09-12T20:00:00Z'') IST
       = str ''NaN-NaN-NaNTNaN:NaN:NaN''
   \<and> render_date (next_date (utc_date 8639999985600000)) @ str ''T''
       @ render_time (8639999985600000 + 19800000) = str ''275760-09-13T01:30:00''
   \<and> convertUTCToTimezone utc_host (str ''+275760-09-12T20:00:00Z'') IST
       \<noteq> render_date (next_date (utc_date 8639999985600000)) @ str ''T''
          @ render_time (8639999985600000 + 19800000)"
proof -
  have s: "\<not> is_sentinel (str ''+275760-09-12T20:00:00Z'')"
    by (rule not_sentinel_long) simp
  have "convertUTCToTimezone utc_host (str ''+275760-09-12T20:00:00Z'') IST = NaN_string"
    using s parsed_last_evening by (rule Timezone_overflow) simp
  then have c: "convertUTCToTimezone utc_host (str ''+275760-09-12T20:00:00Z'') IST
                  = str ''NaN-NaN-NaNTNaN:NaN:NaN''"
    by (simp add: NaN_string_def)
  have w: "msPerDay \<le> TimeWithinDay 8639999985600000 + 19800000"
    by (simp add: TimeWithinDay_def msPerDay_def)
  have ne: "str ''NaN-NaN-NaNTNaN:NaN:NaN'' \<noteq> str ''275760-09-13T01:30:00''"
    by (simp add: str_Nil str_Cons chr_def)
  have d: "convertUTCToTimezone utc_host (str ''+275760-09-12T20:00:00Z'') IST
       \<noteq> render_date (next_date (utc_date 8639999985600000)) @ str ''T''
          @ render_time (8639999985600000 + 19800000)"
    unfolding c render_last_evening by (rule ne)
  show ?thesis
    using s parsed_last_evening [of utc_host] w c render_last_evening d by blast
qed

text \<open>
  C6, amended. For every input that is not a sentinel and parses to a valid instant \<open>t\<close>
  with \<open>t + 19800000\<close> still in the range of Date: when the 330 minutes cross midnight
  (the UTC time of day of \<open>t\<close> is 18:30:00 or later), the date in the output is the
  calendar day after the UTC date of \<open>t\<close> (the next day of the month, else the first of
  the next month, else the first of January of the next year); when they do not, it is
  the UTC date of \<open>t\<close>. In particular
  \<open>convertUTCToTimezone('2024-01-01T20:00:00', 'IST')\<close> is \<open>'2024-01-02T01:30:00'\<close>,
  on every host.
\<close>

theorem day_rollover:
  "(\<not> is_sentinel x \<and> parsed_instant h x = Some t \<and> t + 19800000 \<le> 8640000000000000
      \<and> msPerDay \<le> TimeWithinDay t + 19800000
      \<longrightarrow> convertUTCToTimezone h x IST
          = render_date (next_date (utc_date t)) @ str ''T'' @ render_time (t + 19800000))
   \<and> (\<not> is_sentinel x \<and> parsed_instant h x = Some t \<and> t + 19800000 \<le> 8640000000000000
      \<and> TimeWithinDay t + 19800000 < msPerDay
      \<longrightarrow> convertUTCToTimezone h x IST
          = render_date (utc_date t) @ str ''T'' @ render_time (t + 19800000))
   \<and> convertUTCToTimezone h (str ''2024-01-01T20:00:00'') IST = str ''2024-01-02T01:30:00''"
proof -
  have crossing: "convertUTCToTimezone h x IST
          = render_date (next_date (utc_date t)) @ str ''T'' @ render_time (t + 19800000)"
    if "\<not> is_sentinel x" "parsed_instant h x = Some t" "t + 19800000 \<le> 8640000000000000"
      "msPerDay \<le> TimeWithinDay t + 19800000"
  proof -
    have "utc_date (t + 19800000) = next_date (utc_date t)"
      using Day_of_shifted(1) [OF that(4)] by (rule utc_date_next_day)
    then show ?thesis
      using Timezone_valid [OF that(1-3)] by (simp add: spec_render_halves)
  qed
  have staying: "convertUTCToTimezone h x IST
          = render_date (utc_date t) @ str ''T'' @ render_time (t + 19800000)"
    if "\<not> is_sentinel x" "parsed_instant h x = Some t" "t + 19800000 \<le> 8640000000000000"
      "TimeWithinDay t + 19800000 < msPerDay"
  proof -
    have "utc_date (t + 19800000) = utc_date t"
      using Day_of_shifted(2) [OF that(4)] by (rule utc_date_same_day)
    then show ?thesis
      using Timezone_valid [OF that(1-3)] by (simp add: spec_render_halves)
  qed
  have "\<not> is_sentinel (str ''2024-01-01T20:00:00'')"
    by (rule not_sentinel_long) simp
  then have "convertUTCToTimezone h (str ''2024-01-01T20:00:00'') IST
               = spec_render (1704139200000 + 19800000)"
    by (rule Timezone_valid) (simp_all add: parsed_evening)
  then show ?thesis
    using crossing staying by (simp add: render_next_day)
qed

theorem day_rollover_witness:
  "\<not> is_sentinel (str ''2024-01-01T20:00:00'')
   \<and> parsed_instant utc_host (str ''2024-01-01T20:00:00'') = Some 1704139200000
   \<and> (1704139200000::int) + 19800000 \<le> 8640000000000000
   \<and> msPerDay \<le> TimeWithinDay 1704139200000 + 19800000
   \<and> utc_date 1704139200000 = (2024, 1, 1)
   \<and> next_date (utc_date 1704139200000) = (2024, 1, 2)
   \<and> convertUTCToTimezone utc_host (str ''2024-01-01T20:00:00'') IST
       = render_date (next_date (utc_date 1704139200000)) @ str ''T''
         @ render_time (1704139200000 + 19800000)
   \<and> \<not> is_sentinel (str ''2024-01-01T00:00:00'')
   \<and> parsed_instant utc_host (str ''2024-01-01T00:00:00'') = Some 1704067200000
   \<and> (1704067200000::int) + 19800000 \<le> 8640000000000000
   \<and> TimeWithinDay 1704067200000 + 19800000 < msPerDay
   \<and> convertUTCToTimezone utc_host (str ''2024-01-01T00:00:00'') IST
       = render_date (utc_date 1704067200000) @ str ''T'' @ render_time (1704067200000 + 19800000)"
proof -
  have s: "\<not> is_sentinel (str ''2024-01-01T20:00:00'')" "\<not> is_sentinel (str ''2024-01-01T00:00:00'')"
    by (rule not_sentinel_long, simp)+
  have w: "msPerDay \<le> TimeWithinDay 1704139200000 + 19800000"
    "TimeWithinDay 1704067200000 + 19800000 < msPerDay"
    by (simp_all add: TimeWithinDay_def msPerDay_def)
  have u: "utc_date 1704139200000 = (2024, 1, 1)"
    by (simp add: utc_date_def render_eval)
  have n: "next_date (2024, 1, 1) = (2024, 1, 2)"
    by (simp add: next_date_def DaysInMonth_def month_start_def leap_year_def)
  show ?thesis
    using day_rollover [of "str ''2024-01-01T20:00:00''" utc_host 1704139200000]
      day_rollover [of "str ''2024-01-01T00:00:00''" utc_host 1704067200000]
      s w parsed_evening [of utc_host] parsed_midnight [of utc_host]
    by (simp add: u n)
qed

text \<open>
  C9. \<open>convertUTCToIST\<close> and \<open>convertUTCToTimezone\<close> with zone \<open>IST\<close> return the same
  string for every input, on every host.
\<close>

theorem IST_functions_agree: "convertUTCToIST h x = convertUTCToTimezone h x IST"
  by (simp add: convertUTCToIST_def convertUTCToTimezone_def try_IST try_Timezone)

text \<open>
  C4. The claim: every input that is not a sentinel and parses to a valid instant is
  rendered as that instant plus 330 minutes. It fails for the instants of the last
  330 minutes of the range of Date: there the sum is beyond \<open>8.64e15\<close>, the shifted Date is
  invalid and the result is \<open>NaN-NaN-NaNTNaN:NaN:NaN\<close>.
\<close>

theorem IST_shift_fails_at_end_of_range:
  "\<not> is_sentinel (str ''+275760-09-13T00:00:00Z'')
   \<and> parsed_instant utc_host (str ''+275760-09-13T00:00:00Z'') = Some 8640000000000000
   \<and> convertUTCToTimezone utc_host (str ''+275760-09-13T00:00:00Z'') IST
       = str ''NaN-NaN-NaNTNaN:NaN:NaN''
   \<and> spec_render (8640000000000000 + 330 * 60 * 1000) = str ''275760-09-13T05:30:00''
   \<and> convertUTCToTimezone utc_host (str ''+275760-09-13T00:00:00Z'') IST
       \<noteq> spec_render (8640000000000000 + 330 * 60 * 1000)"
proof -
  have s: "\<not> is_sentinel (str ''+275760-09-13T00:00:00Z'')"
    by (rule not_sentinel_long) simp
  have "convertUTCToTimezone utc_host (str ''+275760-09-13T00:00:00Z'') IST = NaN_string"
    using s parsed_last_instant by (rule Timezone_overflow) simp
  then show ?thesis
    using s parsed_last_instant render_beyond_range
    by (simp add: NaN_string_def str_Nil str_Cons chr_def)
qed

text \<open>
  C4, amended. For every input that is not a sentinel and parses to a valid instant \<open>t\<close>
  with \<open>t + 19800000\<close> still in the range of Date, \<open>convertUTCToTimezone(input, 'IST')\<close>
  is the rendering of \<open>t\<close> plus 330 minutes: the year in decimal, then month, day, hour,
  minute and second of the shifted instant's UTC calendar fields as two digits each, in
  the shape \<open>YYYY-MM-DDTHH:mm:ss\<close>. In particular
  \<open>convertUTCToTimezone('2024-01-01T00:00:00', 'IST')\<close> is \<open>'2024-01-01T05:30:00'\<close>.
\<close>

theorem IST_shift_rendering:
  "(\<not> is_sentinel x \<and> parsed_instant h x = Some t \<and> t + 19800000 \<le> 8640000000000000
      \<longrightarrow> convertUTCToTimezone h x IST = spec_render (t + 330 * 60 * 1000))
   \<and> convertUTCToTimezone h (str ''2024-01-01T00:00:00'') IST = str ''2024-01-01T05:30:00''"
proof -
  have "\<not> is_sentinel (str ''2024-01-01T00:00:00'')"
    by (rule not_sentinel_long) simp
  then have "convertUTCToTimezone h (str ''2024-01-01T00:00:00'') IST
               = spec_render (1704067200000 + 19800000)"
    by (rule Timezone_valid) (simp_all add: parsed_midnight)
  then show ?thesis
    using Timezone_valid [of x h t] by (simp add: render_0530)
qed

theorem IST_shift_rendering_witness:
  "\<not> is_sentinel (str ''2024-01-01T00:00:00'')
   \<and> parsed_instant utc_host (str ''2024-01-01T00:00:00'') = Some 1704067200000
   \<and> (1704067200000::int) + 19800000 \<le> 8640000000000000
   \<and> convertUTCToTimezone utc_host (str ''2024-01-01T00:00:00'') IST
       = spec_render (1704067200000 + 330 * 60 * 1000)"
proof -
  have s: "\<not> is_sentinel (str ''2024-01-01T00:00:00'')"
    by (rule not_sentinel_long) simp
  show ?thesis
    using IST_shift_rendering [of "str ''2024-01-01T00:00:00''" utc_host 1704067200000]
      s parsed_midnight [of utc_host]
    by simp
qed

text \<open>
  C7. The claim: the output depends on the input and the zone only, whatever the local
  time zone of the host. It fails for strings outside the date-time string format,
  which are parsed as they are by the heuristics of the engine:
  \<open>2024-01-01 20:00:00\<close> has a space where the format has \<open>T\<close>, V8 reads it as local
  time, and a V8 host on UTC and a V8 host one hour ahead return different strings.
\<close>

theorem space_form_depends_on_host_zone:
  "iso_parse (str ''2024-01-01 20:00:00'') = None
   \<and> spec_date_argument (str ''2024-01-01 20:00:00'') = str ''2024-01-01 20:00:00''
   \<and> convertUTCToTimezone v8_utc_host (str ''2024-01-01 20:00:00'') IST = str ''2024-01-02T01:30:00''
   \<and> convertUTCToTimezone v8_cet_host (str ''2024-01-01 20:00:00'') IST = str ''2024-01-02T00:30:00''
   \<and> convertUTCToTimezone v8_utc_host (str ''2024-01-01 20:00:00'') IST
       \<noteq> convertUTCToTimezone v8_cet_host (str ''2024-01-01 20:00:00'') IST"
proof -
  have s: "\<not> is_sentinel (str ''2024-01-01 20:00:00'')"
    by (rule not_sentinel_long) simp
  have "convertUTCToTimezone v8_utc_host (str ''2024-01-01 20:00:00'') IST
          = spec_render (1704139200000 + 19800000)"
    using s parsed_space_utc by (rule Timezone_valid) simp
  moreover have "convertUTCToTimezone v8_cet_host (str ''2024-01-01 20:00:00'') IST
          = spec_render (1704135600000 + 19800000)"
    using s parsed_space_cet by (rule Timezone_valid) simp
  moreover have "iso_parse (str ''2024-01-01 20:00:00'') = None"
    "spec_date_argument (str ''2024-01-01 20:00:00'') = str ''2024-01-01 20:00:00''"
    by (simp_all add: parse_eval)
  ultimately show ?thesis
    by (simp add: render_next_day render_0030 str_Nil str_Cons chr_def)
qed

text \<open>
  C7, amended. Two hosts return the same string whenever the zone is \<open>UTC\<close>, or the
  input is a sentinel, or the string handed to \<open>new Date\<close> (the input, or the input
  with \<open>Z\<close> appended in the \<open>T\<close> case) is in the ECMAScript date-time string format,
  with a day that exists in its month, and is a date-only form or carries \<open>Z\<close> or an
  offset.
\<close>

theorem zoned_input_host_independent:
  assumes "zone = UTC \<or> is_sentinel x \<or> zoned_input x"
  shows "convertUTCToTimezone h1 x zone = convertUTCToTimezone h2 x zone"
proof (cases "zone = UTC \<or> is_sentinel x")
  case True
  then show ?thesis by (auto simp: convertUTCToTimezone_def is_sentinel_def)
next
  case False
  then have "zoned_input x" using assms by simp
  then have "parsed_instant h1 x = parsed_instant h2 x" by (rule parsed_instant_zoned)
  then show ?thesis using False by (simp add: Timezone_unfold)
qed

theorem zoned_input_host_independent_witness:
  "(IST = UTC \<or> is_sentinel (str ''2024-01-01T00:00:00'') \<or> zoned_input (str ''2024-01-01T00:00:00''))
   \<and> convertUTCToTimezone utc_host (str ''2024-01-01T00:00:00'') IST
       = convertUTCToTimezone cet_host (str ''2024-01-01T00:00:00'') IST"
proof -
  have z: "IST = UTC \<or> is_sentinel (str ''2024-01-01T00:00:00'') \<or> zoned_input (str ''2024-01-01T00:00:00'')"
    using zoned_midnight by simp
  show ?thesis
    using zoned_input_host_independent [OF z, of utc_host cet_host] z by simp
qed

text \<open>
  C10. The claim: an input that is not a sentinel, contains none of \<open>Z\<close>, \<open>+\<close> and
  \<open>T\<close> and is a date-only form is read as midnight UTC of that day. It fails for a day
  before the range of Date: \<open>-271821-04-19\<close> is a date-only form, its midnight is one
  day before the first instant a Date can hold, the Date is invalid and the result is
  \<open>NaN-NaN-NaNTNaN:NaN:NaN\<close> on every host.
\<close>

theorem date_only_before_range_gives_NaN:
  "\<not> is_sentinel (str ''-271821-04-19'') \<and> \<not> includes_str (str ''-271821-04-19'') (str ''Z'')
   \<and> \<not> includes_str (str ''-271821-04-19'') (str ''+'')
   \<and> \<not> includes_str (str ''-271821-04-19'') (str ''T'')
   \<and> iso_parse (str ''-271821-04-19'') = Some (- 8640000086400000, DateOnly)
   \<and> parsed_instant utc_host (str ''-271821-04-19'') = None
   \<and> convertUTCToTimezone utc_host (str ''-271821-04-19'') IST = str ''NaN-NaN-NaNTNaN:NaN:NaN''
   \<and> convertUTCToTimezone utc_host (str ''-271821-04-19'') IST
       \<noteq> spec_render (- 8640000086400000 + 19800000)"
proof -
  have s: "\<not> is_sentinel (str ''-271821-04-19'')"
    by (rule not_sentinel_long) simp
  have i: "\<not> includes_str (str ''-271821-04-19'') (str ''Z'')"
    "\<not> includes_str (str ''-271821-04-19'') (str ''+'')"
    "\<not> includes_str (str ''-271821-04-19'') (str ''T'')"
    by (simp_all add: str_Nil str_Cons chr_def)
  have n: "convertUTCToTimezone utc_host (str ''-271821-04-19'') IST = NaN_string"
    using s parsed_before_range by (rule Timezone_invalid)
  have "hd (spec_render (- 8640000086400000 + 19800000)) = chr CHR ''-''"
    by (simp add: spec_render_cons String_def YearFromTime_def Day_def DayFromYear_def
        msPerDay_def Let_def)
  moreover have "hd NaN_string = chr CHR ''N''"
    by (simp add: NaN_string_def str_Cons)
  moreover have "chr CHR ''N'' \<noteq> chr CHR ''-''"
    by (simp add: chr_def)
  ultimately have "NaN_string \<noteq> spec_render (- 8640000086400000 + 19800000)"
    by metis
  then show ?thesis
    using s i n parsed_before_range [of utc_host] iso_parse_before_range
    by (simp add: NaN_string_def)
qed

text \<open>
  C10, amended. An input that is not a sentinel, contains none of \<open>Z\<close>, \<open>+\<close> and
  \<open>T\<close> and is a date-only form of the date-time string format whose day is not before
  the first day of the range of Date is parsed as it is, to midnight UTC of that day on
  every host, and rendered 330 minutes later.
  \<open>convertUTCToTimezone('2024-01-01', 'IST')\<close> is \<open>'2024-01-01T05:30:00'\<close>.
\<close>

theorem date_only_is_UTC_midnight:
  "(\<not> is_sentinel x \<and> \<not> includes_str x (str ''Z'') \<and> \<not> includes_str x (str ''+'')
      \<and> \<not> includes_str x (str ''T'') \<and> iso_parse x = Some (t, DateOnly)
      \<and> - 8640000000000000 \<le> t
      \<longrightarrow> parsed_instant h x = Some t \<and> TimeWithinDay t = 0
          \<and> convertUTCToTimezone h x IST = spec_render (t + 19800000))
   \<and> parsed_instant h (str ''2024-01-01'') = Some (MakeDate (MakeDay 2024 0 1) 0)
   \<and> convertUTCToTimezone h (str ''2024-01-01'') IST = str ''2024-01-01T05:30:00''"
proof -
  have general: "parsed_instant h x = Some t \<and> TimeWithinDay t = 0
          \<and> convertUTCToTimezone h x IST = spec_render (t + 19800000)"
    if x: "\<not> is_sentinel x" "\<not> includes_str x (str ''Z'')" "\<not> includes_str x (str ''+'')"
          "\<not> includes_str x (str ''T'')"
      and p: "iso_parse x = Some (t, DateOnly)"
      and r: "- 8640000000000000 \<le> t"
  proof -
    have "chr CHR ''+'' \<notin> set x"
      using x(3) by (simp add: includes_str_single str_Nil str_Cons)
    with p have u: "t + 19800000 \<le> 8640000000000000"
      by (rule date_only_upper)
    have "spec_date_argument x = x"
      using x by (simp add: spec_date_argument_def includes_str_single str_Nil str_Cons)
    moreover have "\<bar>t\<bar> \<le> 8640000000000000" using r u by linarith
    ultimately have pi: "parsed_instant h x = Some t"
      using p by (simp add: parsed_instant_def Date_parse_def TimeClip_in_range)
    show ?thesis
      using pi iso_parse_DateOnly_midnight [OF p] Timezone_valid [OF x(1) pi u] by simp
  qed
  have s: "\<not> is_sentinel (str ''2024-01-01'')"
    by (rule not_sentinel_long) simp
  have "convertUTCToTimezone h (str ''2024-01-01'') IST = spec_render (1704067200000 + 19800000)"
    using s parsed_date_only by (rule Timezone_valid) simp
  then show ?thesis
    using general by (simp add: render_0530 parsed_date_only MakeDate_date_only)
qed

theorem date_only_is_UTC_midnight_witness:
  "\<not> is_sentinel (str ''2024-01-01'') \<and> \<not> includes_str (str ''2024-01-01'') (str ''Z'')
   \<and> \<not> includes_str (str ''2024-01-01'') (str ''+'') \<and> \<not> includes_str (str ''2024-01-01'') (str ''T'')
   \<and> iso_parse (str ''2024-01-01'') = Some (1704067200000, DateOnly)
   \<and> - 8640000000000000 \<le> (1704067200000::int)
   \<and> parsed_instant cet_host (str ''2024-01-01'') = Some 1704067200000
   \<and> TimeWithinDay 1704067200000 = 0
   \<and> convertUTCToTimezone cet_host (str ''2024-01-01'') IST = spec_render (1704067200000 + 19800000)"
proof -
  have s: "\<not> is_sentinel (str ''2024-01-01'')"
    by (rule not_sentinel_long) simp
  have i: "\<not> includes_str (str ''2024-01-01'') (str ''Z'')" "\<not> includes_str (str ''2024-01-01'') (str ''+'')"
     "\<not> includes_str (str ''2024-01-01'') (str ''T'')"
    by (simp_all add: str_Nil str_Cons chr_def)
  have p: "iso_parse (str ''2024-01-01'') = Some (1704067200000, DateOnly)"
    using iso_parse_date_only MakeDate_date_only by simp
  show ?thesis
    using date_only_is_UTC_midnight [of "str ''2024-01-01''" 1704067200000 cet_host] s i p
    by simp
qed

text \<open>
  C8. The claim: for every input that is not a sentinel and parses to a valid instant,
  converting to IST twice differs from converting once. It fails where the first
  conversion already returns \<open>NaN-NaN-NaNTNaN:NaN:NaN\<close>: for the last instant of the
  range of Date, on a host whose engine accepts only the date-time string format, the
  second conversion returns the same string.
\<close>

theorem IST_idempotent_at_end_of_range:
  "\<not> is_sentinel (str ''+275760-09-13T00:00:00Z'')
   \<and> parsed_instant utc_host (str ''+275760-09-13T00:00:00Z'') = Some 8640000000000000
   \<and> convertUTCToTimezone utc_host
         (convertUTCToTimezone utc_host (str ''+275760-09-13T00:00:00Z'') IST) IST
       = convertUTCToTimezone utc_host (str ''+275760-09-13T00:00:00Z'') IST"
proof -
  have s: "\<not> is_sentinel (str ''+275760-09-13T00:00:00Z'')"
    by (rule not_sentinel_long) simp
  have first: "convertUTCToTimezone utc_host (str ''+275760-09-13T00:00:00Z'') IST = NaN_string"
    using s parsed_last_instant by (rule Timezone_overflow) simp
  have "\<not> is_sentinel NaN_string"
    by (rule not_sentinel_long) (simp add: NaN_string_def)
  then have "convertUTCToTimezone utc_host NaN_string IST = NaN_string"
    using NaN_string_parsed by (rule Timezone_invalid)
  then show ?thesis
    using s parsed_last_instant first by simp
qed

text \<open>
  C8, amended. For every input that is not a sentinel and parses to a valid instant whose
  IST rendering has a year of the date-time string format (the shifted instant lies in
  the years 1000 to 9999, rendered with four digits, or in the year -100000 or before,
  rendered with a minus sign and six digits), converting to IST twice differs from
  converting once: the rendering is read back as UTC and shifted by 330 minutes again.
\<close>

theorem IST_not_idempotent:
  assumes "\<not> is_sentinel x" and "parsed_instant h x = Some t"
    and "(1000 \<le> YearFromTime (t + 19800000) \<and> YearFromTime (t + 19800000) \<le> 9999)
         \<or> YearFromTime (t + 19800000) \<le> - 100000"
  shows "convertUTCToTimezone h (convertUTCToTimezone h x IST) IST \<noteq> convertUTCToTimezone h x IST"
  using converted_twice [OF assms] by simp

theorem IST_not_idempotent_witness:
  "\<not> is_sentinel (str ''2024-01-01T00:00:00'')
   \<and> parsed_instant utc_host (str ''2024-01-01T00:00:00'') = Some 1704067200000
   \<and> ((1000 \<le> YearFromTime (1704067200000 + 19800000)
        \<and> YearFromTime (1704067200000 + 19800000) \<le> 9999)
       \<or> YearFromTime (1704067200000 + 19800000) \<le> - 100000)
   \<and> convertUTCToTimezone utc_host (convertUTCToTimezone utc_host (str ''2024-01-01T00:00:00'') IST) IST
       \<noteq> convertUTCToTimezone utc_host (str ''2024-01-01T00:00:00'') IST
   \<and> \<not> is_sentinel (str ''-271821-04-20T00:00:00Z'')
   \<and> parsed_instant utc_host (str ''-271821-04-20T00:00:00Z'') = Some (- 8640000000000000)
   \<and> ((1000 \<le> YearFromTime (- 8640000000000000 + 19800000)
        \<and> YearFromTime (- 8640000000000000 + 19800000) \<le> 9999)
       \<or> YearFromTime (- 8640000000000000 + 19800000) \<le> - 100000)
   \<and> convertUTCToTimezone utc_host
         (convertUTCToTimezone utc_host (str ''-271821-04-20T00:00:00Z'') IST) IST
       \<noteq> convertUTCToTimezone utc_host (str ''-271821-04-20T00:00:00Z'') IST"
proof -
  have s: "\<not> is_sentinel (str ''2024-01-01T00:00:00'')"
    "\<not> is_sentinel (str ''-271821-04-20T00:00:00Z'')"
    by (rule not_sentinel_long, simp)+
  have y: "(1000 \<le> YearFromTime (1704067200000 + 19800000)
        \<and> YearFromTime (1704067200000 + 19800000) \<le> 9999)
       \<or> YearFromTime (1704067200000 + 19800000) \<le> - 100000"
    unfolding year_2024 by simp
  have y': "(1000 \<le> YearFromTime (- 8640000000000000 + 19800000)
        \<and> YearFromTime (- 8640000000000000 + 19800000) \<le> 9999)
       \<or> YearFromTime (- 8640000000000000 + 19800000) \<le> - 100000"
    unfolding year_first_instant by simp
  show ?thesis
    using IST_not_idempotent [OF s(1) parsed_midnight y]
      IST_not_idempotent [OF s(2) parsed_first_instant y']
      s parsed_midnight [of utc_host] parsed_first_instant [of utc_host] y y'
    by blast
qed

end
